theory Spec2Isabelle
  imports Complex_Main "HOL-Library.AList"
begin

section \<open>Data model (src/models/Transaction.ts, src/models/Rule.ts, src/models/Error.ts)\<close>

text \<open>
  Naming. A record field that would clash with a HOL constant or with a field of another
  record carries a prefix: \<open>tx_id\<close>, \<open>tx_type\<close> (Transaction), \<open>req_\<close> (CreateTransactionRequest),
  \<open>rule_\<close> (Rule), \<open>res_\<close> (RuleEvaluationResult), \<open>wh_\<close> (Webhook), \<open>log_\<close> (WebhookLog).
  A parameter or local variable of the source whose name is a field of a record is renamed:
  \<open>transactionId\<close> is \<open>txid\<close>, \<open>triggeredBy\<close> is \<open>actor\<close>, \<open>reason\<close> is \<open>why\<close>,
  \<open>timestamp\<close> is \<open>stamp\<close>, and \<open>log\<close>, the logarithm of HOL, is \<open>entry\<close>. Everything else keeps the name it has in the TypeScript source.

  Numbers. A JavaScript \<open>number\<close> that holds an amount is a \<open>real\<close>: the value a finite
  double denotes (NaN and the infinities are not represented). Counters that the code only
  initialises with a literal and increments (\<open>retryCount\<close>, \<open>maxRetries\<close>, \<open>attempt\<close>) are
  \<open>nat\<close>. A \<open>Date\<close> is its epoch time, a \<open>nat\<close>; every operation takes the reading
  \<open>now\<close> of the clock that its \<open>new Date()\<close> calls see.
\<close>

datatype TransactionStatus =
  PENDING | VALIDATING | PROCESSING | COMPLETED | FAILED | CANCELLED | REFUNDED

datatype TransactionType = PAYMENT | TRANSFER | WITHDRAWAL | DEPOSIT | REFUND

datatype TransactionPriority = LOW | NORMAL | HIGH | URGENT

text \<open>The string value of each enum member, as string interpolation prints it.\<close>

fun status_str :: "TransactionStatus \<Rightarrow> string" where
  "status_str PENDING = ''PENDING''"
| "status_str VALIDATING = ''VALIDATING''"
| "status_str PROCESSING = ''PROCESSING''"
| "status_str COMPLETED = ''COMPLETED''"
| "status_str FAILED = ''FAILED''"
| "status_str CANCELLED = ''CANCELLED''"
| "status_str REFUNDED = ''REFUNDED''"

fun type_str :: "TransactionType \<Rightarrow> string" where
  "type_str PAYMENT = ''PAYMENT''"
| "type_str TRANSFER = ''TRANSFER''"
| "type_str WITHDRAWAL = ''WITHDRAWAL''"
| "type_str DEPOSIT = ''DEPOSIT''"
| "type_str REFUND = ''REFUND''"

fun priority_str :: "TransactionPriority \<Rightarrow> string" where
  "priority_str LOW = ''LOW''"
| "priority_str NORMAL = ''NORMAL''"
| "priority_str HIGH = ''HIGH''"
| "priority_str URGENT = ''URGENT''"

text \<open>
  JavaScript values, for the \<open>unknown\<close>-typed comparison value of a rule condition and for
  what \<open>transaction[field]\<close> reads. \<open>JObj\<close> is a plain object with its properties in
  order, \<open>JDate\<close> a \<open>Date\<close> object.
\<close>

datatype jsval =
  JUndefined | JNull | JBool bool | JNum real | JStr string | JArr "jsval list"
  | JObj "(string \<times> jsval) list" | JDate nat

record Transaction =
  tx_id :: string
  tx_type :: TransactionType
  status :: TransactionStatus
  priority :: TransactionPriority
  amount :: real
  currency :: string
  sourceAccount :: string
  destinationAccount :: "string option"
  description :: "string option"
  metadata :: "(string \<times> jsval) list option"
  createdAt :: nat
  updatedAt :: nat
  completedAt :: "nat option"
  errorCode :: "string option"
  errorMessage :: "string option"
  retryCount :: nat
  maxRetries :: nat

record CreateTransactionRequest =
  req_type :: TransactionType
  req_amount :: real
  req_currency :: string
  req_sourceAccount :: string
  req_destinationAccount :: "string option"
  req_description :: "string option"
  req_priority :: "TransactionPriority option"
  req_metadata :: "(string \<times> jsval) list option"

record StatusTransition =
  transactionId :: string
  fromStatus :: TransactionStatus
  toStatus :: TransactionStatus
  timestamp :: nat
  reason :: "string option"
  triggeredBy :: string

text \<open>\<open>VALID_STATUS_TRANSITIONS\<close>, Transaction.ts lines 80-88.\<close>

fun VALID_STATUS_TRANSITIONS :: "TransactionStatus \<Rightarrow> TransactionStatus list" where
  "VALID_STATUS_TRANSITIONS PENDING = [VALIDATING, CANCELLED]"
| "VALID_STATUS_TRANSITIONS VALIDATING = [PROCESSING, FAILED, CANCELLED]"
| "VALID_STATUS_TRANSITIONS PROCESSING = [COMPLETED, FAILED]"
| "VALID_STATUS_TRANSITIONS COMPLETED = [REFUNDED]"
| "VALID_STATUS_TRANSITIONS FAILED = [PENDING]"
| "VALID_STATUS_TRANSITIONS CANCELLED = []"
| "VALID_STATUS_TRANSITIONS REFUNDED = []"

text \<open>\<open>ERROR_CODES\<close> (Error.ts): the two codes the lifecycle writes into a transaction.\<close>

definition RULE_VIOLATION :: string where
  "RULE_VIOLATION = ''E3001''"

definition PROCESSING_FAILED :: string where
  "PROCESSING_FAILED = ''E2005''"

subsection \<open>Errors\<close>

text \<open>
  Every \<open>throw new Error(msg)\<close> of the services is a constructor; \<open>error_message\<close> is the
  \<open>message\<close> of the thrown \<open>Error\<close>. \<open>RegExpSyntaxError m\<close> is the exception of
  \<open>new RegExp(pattern)\<close> on a pattern that does not compile, with the runtime's message.
\<close>

datatype error =
    AmountMustBePositive
  | CurrencyRequired
  | SourceAccountRequired
  | TransactionNotFound string
  | InvalidStatusTransition TransactionStatus TransactionStatus
  | OnlyFailedCanBeRetried
  | MaxRetriesExceeded nat
  | CannotCancelCompleted
  | AlreadyCancelled
  | OnlyCompletedCanBeRefunded
  | BatchSizeExceeded nat
  | RegExpSyntaxError string

definition digit_char :: "nat \<Rightarrow> char" where
  "digit_char d = ''0123456789'' ! (d mod 10)"

text \<open>The decimal numeral of a natural number, as \<open>${n}\<close> prints an integer-valued number.\<close>

function show_nat :: "nat \<Rightarrow> string" where
  "show_nat n = (if n < 10 then [digit_char n] else show_nat (n div 10) @ [digit_char n])"
  by pat_completeness auto
termination
  by (relation "measure (\<lambda>n. n)") auto

declare show_nat.simps [simp del]

fun error_message :: "error \<Rightarrow> string" where
  "error_message AmountMustBePositive = ''Amount must be greater than 0''"
| "error_message CurrencyRequired = ''Currency is required''"
| "error_message SourceAccountRequired = ''Source account is required''"
| "error_message (TransactionNotFound i) = ''Transaction '' @ i @ '' not found''"
| "error_message (InvalidStatusTransition a b) =
     ''Invalid status transition from '' @ status_str a @ '' to '' @ status_str b"
| "error_message OnlyFailedCanBeRetried = ''Only failed transactions can be retried''"
| "error_message (MaxRetriesExceeded m) =
     ''Maximum retry attempts ('' @ show_nat m @ '') exceeded''"
| "error_message CannotCancelCompleted =
     ''Cannot cancel a completed transaction. Use refund instead.''"
| "error_message AlreadyCancelled = ''Transaction is already cancelled''"
| "error_message OnlyCompletedCanBeRefunded = ''Only completed transactions can be refunded''"
| "error_message (BatchSizeExceeded m) = ''Batch size exceeds maximum of '' @ show_nat m"
| "error_message (RegExpSyntaxError m) = m"

text \<open>\<open>x || d\<close> on an optional string: \<open>undefined\<close> and the empty string are falsy.\<close>

definition or_default :: "string option \<Rightarrow> string \<Rightarrow> string" where
  "or_default x d = (case x of None \<Rightarrow> d | Some s \<Rightarrow> if s = [] then d else s)"

text \<open>\<open>String.prototype.toUpperCase\<close> on the ASCII letters.\<close>

definition upper_char :: "char \<Rightarrow> char" where
  "upper_char c =
     (case map_of (zip ''abcdefghijklmnopqrstuvwxyz'' ''ABCDEFGHIJKLMNOPQRSTUVWXYZ'') c of
        None \<Rightarrow> c
      | Some u \<Rightarrow> u)"

definition toUpperCase :: "string \<Rightarrow> string" where
  "toUpperCase s = map upper_char s"

section \<open>Rules engine (class RulesEngine)\<close>

datatype RuleSeverity = INFO | WARNING | ERROR | CRITICAL

datatype RuleAction = ALLOW | DENY | FLAG | REQUIRE_APPROVAL

datatype RuleConditionType =
  AMOUNT_THRESHOLD | TRANSACTION_TYPE | CURRENCY | ACCOUNT_PATTERN | TIME_WINDOW | FREQUENCY
  | COMPOSITE

datatype Operator = EQ | NEQ | GT | GTE | LT | LTE | IN | NOT_IN | MATCHES | AND | OR

text \<open>\<open>keyof Transaction\<close>: the seventeen property names a condition may read.\<close>

datatype TransactionField =
  F_id | F_type | F_status | F_priority | F_amount | F_currency | F_sourceAccount
  | F_destinationAccount | F_description | F_metadata | F_createdAt | F_updatedAt
  | F_completedAt | F_errorCode | F_errorMessage | F_retryCount | F_maxRetries

datatype RuleCondition =
  RuleCondition (ctype: RuleConditionType) (operator: Operator) (cvalue: jsval)
    (field: "TransactionField option") (children: "RuleCondition list option")

record RuleTemplate =
  name :: string
  rule_description :: string
  enabled :: bool
  rule_priority :: int
  condition :: RuleCondition
  action :: RuleAction
  severity :: RuleSeverity

record Rule = RuleTemplate +
  rule_id :: string
  rule_createdAt :: nat
  rule_updatedAt :: nat

record RuleEvaluationResult =
  ruleId :: string
  ruleName :: string
  passed :: bool
  res_action :: RuleAction
  res_severity :: RuleSeverity
  message :: string
  evaluatedAt :: nat

record RulesEngineConfig =
  stopOnFirstDeny :: bool
  logAllEvaluations :: bool
  defaultAction :: RuleAction

text \<open>
  What the JavaScript runtime contributes to a comparison and is not code of this
  repository: \<open>toNumber\<close> is the coercion of a non-number operand of \<open>>\<close>, \<open>>=\<close>, \<open><\<close>,
  \<open><=\<close> (\<open>None\<close> for NaN), and \<open>regexp_test v s\<close> is \<open>new RegExp(v).test(s)\<close>
  (\<open>Inl m\<close> when the constructor throws a SyntaxError with message \<open>m\<close>).
\<close>

record js_runtime =
  toNumber :: "jsval \<Rightarrow> real option"
  regexp_test :: "jsval \<Rightarrow> string \<Rightarrow> string + bool"

definition opt_str :: "string option \<Rightarrow> jsval" where
  "opt_str x = (case x of None \<Rightarrow> JUndefined | Some s \<Rightarrow> JStr s)"

text \<open>\<open>transaction[field]\<close>.\<close>

fun get_field :: "TransactionField \<Rightarrow> Transaction \<Rightarrow> jsval" where
  "get_field F_id t = JStr (tx_id t)"
| "get_field F_type t = JStr (type_str (tx_type t))"
| "get_field F_status t = JStr (status_str (status t))"
| "get_field F_priority t = JStr (priority_str (priority t))"
| "get_field F_amount t = JNum (amount t)"
| "get_field F_currency t = JStr (currency t)"
| "get_field F_sourceAccount t = JStr (sourceAccount t)"
| "get_field F_destinationAccount t = opt_str (destinationAccount t)"
| "get_field F_description t = opt_str (description t)"
| "get_field F_metadata t = (case metadata t of None \<Rightarrow> JUndefined | Some m \<Rightarrow> JObj m)"
| "get_field F_createdAt t = JDate (createdAt t)"
| "get_field F_updatedAt t = JDate (updatedAt t)"
| "get_field F_completedAt t =
     (case completedAt t of None \<Rightarrow> JUndefined | Some d \<Rightarrow> JDate d)"
| "get_field F_errorCode t = opt_str (errorCode t)"
| "get_field F_errorMessage t = opt_str (errorMessage t)"
| "get_field F_retryCount t = JNum (real (retryCount t))"
| "get_field F_maxRetries t = JNum (real (maxRetries t))"

text \<open>
  \<open>a === b\<close> between a transaction property and a rule's value. Two objects (arrays and
  dates included) are equal only when they are the same object, which a property of the
  transaction and the value of a rule never are.
\<close>

fun strict_eq :: "jsval \<Rightarrow> jsval \<Rightarrow> bool" where
  "strict_eq JUndefined JUndefined = True"
| "strict_eq JNull JNull = True"
| "strict_eq (JBool a) (JBool b) = (a = b)"
| "strict_eq (JNum a) (JNum b) = (a = b)"
| "strict_eq (JStr a) (JStr b) = (a = b)"
| "strict_eq _ _ = False"

definition to_num :: "js_runtime \<Rightarrow> jsval \<Rightarrow> real option" where
  "to_num rt v = (case v of JNum b \<Rightarrow> Some b | _ \<Rightarrow> toNumber rt v)"

text \<open>
  \<open>typeof fieldValue === 'number' && fieldValue \<bowtie> (value as number)\<close> for a
  relation \<open>\<bowtie>\<close>: false unless the property is a number; a comparison with NaN is false.
\<close>

definition num_compare ::
  "(real \<Rightarrow> real \<Rightarrow> bool) \<Rightarrow> js_runtime \<Rightarrow> jsval \<Rightarrow> jsval \<Rightarrow> bool" where
  "num_compare rel rt fieldValue v =
     (case fieldValue of
        JNum a \<Rightarrow> (case to_num rt v of None \<Rightarrow> False | Some b \<Rightarrow> rel a b)
      | _ \<Rightarrow> False)"

text \<open>\<open>Array.isArray(value) && value.includes(fieldValue)\<close>.\<close>

definition array_includes :: "jsval \<Rightarrow> jsval \<Rightarrow> bool option" where
  "array_includes v fieldValue =
     (case v of JArr vs \<Rightarrow> Some (list_ex (\<lambda>x. strict_eq x fieldValue) vs) | _ \<Rightarrow> None)"

text \<open>The part of \<open>evaluateCondition\<close> after the composite cases (lines 299-325).\<close>

definition evaluateLeaf ::
  "js_runtime \<Rightarrow> Operator \<Rightarrow> jsval \<Rightarrow> TransactionField option \<Rightarrow> Transaction \<Rightarrow> error + bool"
  where
  "evaluateLeaf rt op v f transaction =
     (case f of
        None \<Rightarrow> Inr False
      | Some fld \<Rightarrow>
          (let fieldValue = get_field fld transaction in
           case op of
             EQ \<Rightarrow> Inr (strict_eq fieldValue v)
           | NEQ \<Rightarrow> Inr (\<not> strict_eq fieldValue v)
           | GT \<Rightarrow> Inr (num_compare (\<lambda>a b. a > b) rt fieldValue v)
           | GTE \<Rightarrow> Inr (num_compare (\<lambda>a b. a \<ge> b) rt fieldValue v)
           | LT \<Rightarrow> Inr (num_compare (\<lambda>a b. a < b) rt fieldValue v)
           | LTE \<Rightarrow> Inr (num_compare (\<lambda>a b. a \<le> b) rt fieldValue v)
           | IN \<Rightarrow> Inr (case array_includes v fieldValue of None \<Rightarrow> False | Some b \<Rightarrow> b)
           | NOT_IN \<Rightarrow>
               Inr (case array_includes v fieldValue of None \<Rightarrow> False | Some b \<Rightarrow> \<not> b)
           | MATCHES \<Rightarrow>
               (case fieldValue of
                  JStr s \<Rightarrow>
                    (case regexp_test rt v s of
                       Inl m \<Rightarrow> Inl (RegExpSyntaxError m)
                     | Inr b \<Rightarrow> Inr b)
                | _ \<Rightarrow> Inr False)
           | _ \<Rightarrow> Inr False))"

text \<open>
  \<open>evaluateCondition\<close> (lines 288-326). \<open>every_child\<close> and \<open>some_child\<close> are
  \<open>children.every(...)\<close> and \<open>children.some(...)\<close>: they stop at the first child that
  decides the result, and an exception of a child ends the evaluation. An empty array
  is truthy, so \<open>operator === 'AND' && children\<close> holds whenever \<open>children\<close> is present.
\<close>

fun evaluateCondition ::
    "js_runtime \<Rightarrow> RuleCondition \<Rightarrow> Transaction \<Rightarrow> error + bool"
  and every_child :: "js_runtime \<Rightarrow> RuleCondition list \<Rightarrow> Transaction \<Rightarrow> error + bool"
  and some_child :: "js_runtime \<Rightarrow> RuleCondition list \<Rightarrow> Transaction \<Rightarrow> error + bool"
  where
  "evaluateCondition rt (RuleCondition ty op v f ch) transaction =
     (case ch of
        Some cs \<Rightarrow>
          if op = AND then every_child rt cs transaction
          else if op = OR then some_child rt cs transaction
          else evaluateLeaf rt op v f transaction
      | None \<Rightarrow> evaluateLeaf rt op v f transaction)"
| "every_child rt [] transaction = Inr True"
| "every_child rt (c # cs) transaction =
     (case evaluateCondition rt c transaction of
        Inl e \<Rightarrow> Inl e
      | Inr b \<Rightarrow> if b then every_child rt cs transaction else Inr False)"
| "some_child rt [] transaction = Inr False"
| "some_child rt (c # cs) transaction =
     (case evaluateCondition rt c transaction of
        Inl e \<Rightarrow> Inl e
      | Inr b \<Rightarrow> if b then Inr True else some_child rt cs transaction)"

text \<open>\<open>evaluateRule\<close> (lines 331-361).\<close>

definition evaluateRule ::
  "js_runtime \<Rightarrow> nat \<Rightarrow> Rule \<Rightarrow> Transaction \<Rightarrow> error + RuleEvaluationResult" where
  "evaluateRule rt now rule transaction =
     (case evaluateCondition rt (condition rule) transaction of
        Inl e \<Rightarrow> Inl e
      | Inr conditionMet \<Rightarrow>
          Inr \<lparr> ruleId = rule_id rule,
                ruleName = name rule,
                passed = (if action rule = ALLOW then conditionMet else \<not> conditionMet),
                res_action = (if conditionMet then action rule else ALLOW),
                res_severity = severity rule,
                message =
                  (if action rule = ALLOW then
                     (if conditionMet then ''Transaction passed rule: '' @ name rule
                      else ''Transaction failed rule: '' @ name rule)
                   else
                     (if conditionMet then
                        ''Rule triggered: '' @ name rule @ '' - '' @ rule_description rule
                      else ''Transaction passed rule check: '' @ name rule)),
                evaluatedAt = now \<rparr>)"

record Evaluation =
  allowed :: bool
  results :: "RuleEvaluationResult list"
  flagged :: bool
  requiresApproval :: bool
  denyReason :: "string option"

text \<open>The \<open>for\<close> loop of \<open>evaluateTransaction\<close> (lines 383-416) over the active rules.\<close>

fun evaluate_loop ::
  "js_runtime \<Rightarrow> RulesEngineConfig \<Rightarrow> nat \<Rightarrow> Transaction \<Rightarrow> Rule list \<Rightarrow> Evaluation
     \<Rightarrow> error + Evaluation" where
  "evaluate_loop rt cfg now transaction [] acc = Inr acc"
| "evaluate_loop rt cfg now transaction (rule # rest) acc =
     (case evaluateRule rt now rule transaction of
        Inl e \<Rightarrow> Inl e
      | Inr result \<Rightarrow>
          (let acc1 = acc\<lparr>results := results acc @ [result]\<rparr> in
           if \<not> passed result then
             (case res_action result of
                DENY \<Rightarrow>
                  (let acc2 = acc1\<lparr>allowed := False, denyReason := Some (message result)\<rparr> in
                   if stopOnFirstDeny cfg then Inr acc2
                   else evaluate_loop rt cfg now transaction rest acc2)
              | FLAG \<Rightarrow> evaluate_loop rt cfg now transaction rest (acc1\<lparr>flagged := True\<rparr>)
              | REQUIRE_APPROVAL \<Rightarrow>
                  evaluate_loop rt cfg now transaction rest (acc1\<lparr>requiresApproval := True\<rparr>)
              | ALLOW \<Rightarrow> evaluate_loop rt cfg now transaction rest acc1)
           else evaluate_loop rt cfg now transaction rest acc1))"

text \<open>\<open>defaultConfig\<close> (lines 248-252 of the RulesEngine part of the services file).\<close>

definition defaultConfig :: RulesEngineConfig where
  "defaultConfig = \<lparr> stopOnFirstDeny = True, logAllEvaluations = True, defaultAction = ALLOW \<rparr>"

text \<open>
  The rule store is a JavaScript \<open>Map\<close>, which iterates in insertion order: an association
  list. \<open>Array.prototype.sort\<close> is stable, as \<open>sort_key\<close> is.
\<close>

definition activeRules :: "(string \<times> Rule) list \<Rightarrow> Rule list" where
  "activeRules rules = sort_key rule_priority (filter enabled (map snd rules))"

definition evaluateTransaction ::
  "js_runtime \<Rightarrow> RulesEngineConfig \<Rightarrow> (string \<times> Rule) list \<Rightarrow> nat \<Rightarrow> Transaction
     \<Rightarrow> error + Evaluation" where
  "evaluateTransaction rt cfg rules now transaction =
     evaluate_loop rt cfg now transaction (activeRules rules)
       \<lparr> allowed = True, results = [], flagged = False, requiresApproval = False,
         denyReason = None \<rparr>"

section \<open>Lifecycle manager (class TransactionService)\<close>

text \<open>
  The two module-level maps of TransactionService.ts. The error logger and the console
  are sinks that no function modelled here reads, and their writes are left out. An
  exception does not roll anything back, so every operation returns the state together
  with its result.
\<close>

record state =
  transactions :: "string \<rightharpoonup> Transaction"
  statusHistory :: "string \<rightharpoonup> StatusTransition list"

type_synonym 'a outcome = "(error + 'a) \<times> state"

definition clearAll :: "state \<Rightarrow> state" where
  "clearAll st = \<lparr> transactions = Map.empty, statusHistory = Map.empty \<rparr>"

text \<open>\<open>getStatusHistory\<close> (lines 310-312).\<close>

definition getStatusHistory :: "state \<Rightarrow> string \<Rightarrow> StatusTransition list" where
  "getStatusHistory st txid =
     (case statusHistory st txid of None \<Rightarrow> [] | Some h \<Rightarrow> h)"

text \<open>
  \<open>createTransaction\<close> (lines 44-95); \<open>uid\<close> is the value of \<open>uuidv4()\<close>.
  \<open>!request.amount || request.amount <= 0\<close> rejects zero and every negative amount.
\<close>

definition createTransaction ::
  "string \<Rightarrow> nat \<Rightarrow> CreateTransactionRequest \<Rightarrow> state \<Rightarrow> Transaction outcome" where
  "createTransaction uid now request st =
     (if req_amount request \<le> 0 then (Inl AmountMustBePositive, st)
      else if req_currency request = [] then (Inl CurrencyRequired, st)
      else if req_sourceAccount request = [] then (Inl SourceAccountRequired, st)
      else
        (let transaction =
           \<lparr> tx_id = uid,
             tx_type = req_type request,
             status = PENDING,
             priority = (case req_priority request of None \<Rightarrow> NORMAL | Some p \<Rightarrow> p),
             amount = req_amount request,
             currency = toUpperCase (req_currency request),
             sourceAccount = req_sourceAccount request,
             destinationAccount = req_destinationAccount request,
             description = req_description request,
             metadata = req_metadata request,
             createdAt = now,
             updatedAt = now,
             completedAt = None,
             errorCode = None,
             errorMessage = None,
             retryCount = 0,
             maxRetries = 3 \<rparr>
         in (Inr transaction,
             st\<lparr> transactions := (transactions st)(uid \<mapsto> transaction),
                 statusHistory := (statusHistory st)(uid \<mapsto> []) \<rparr>)))"

text \<open>\<open>updateStatus\<close> (lines 165-212).\<close>

definition updateStatus ::
  "string \<Rightarrow> TransactionStatus \<Rightarrow> string \<Rightarrow> string option \<Rightarrow> nat \<Rightarrow> state
     \<Rightarrow> Transaction outcome" where
  "updateStatus txid newStatus actor why now st =
     (case transactions st txid of
        None \<Rightarrow> (Inl (TransactionNotFound txid), st)
      | Some transaction \<Rightarrow>
          (let currentStatus = status transaction in
           if newStatus \<notin> set (VALID_STATUS_TRANSITIONS currentStatus) then
             (Inl (InvalidStatusTransition currentStatus newStatus), st)
           else
             (let transaction' = transaction\<lparr>status := newStatus, updatedAt := now\<rparr>;
                  transition =
                    \<lparr> transactionId = txid, fromStatus = currentStatus,
                      toStatus = newStatus, timestamp = now, reason = why,
                      triggeredBy = actor \<rparr>;
                  history = getStatusHistory st txid
              in (Inr transaction',
                  st\<lparr> transactions := (transactions st)(txid \<mapsto> transaction'),
                      statusHistory :=
                        (statusHistory st)(txid \<mapsto> history @ [transition]) \<rparr>))))"

text \<open>
  A write to a property of the stored object, as in \<open>failedTx.errorCode = ...\<close>: the map
  holds references, so the write is visible through the map.
\<close>

definition store :: "string \<Rightarrow> Transaction \<Rightarrow> state \<Rightarrow> state" where
  "store txid transaction st =
     st\<lparr> transactions := (transactions st)(txid \<mapsto> transaction) \<rparr>"

text \<open>
  \<open>processTransaction\<close> (lines 100-160). \<open>rnd\<close> is the value of \<open>Math.random()\<close>; the
  simulated delay changes nothing. The local \<open>transaction\<close> is the stored object, so the
  rules see it with status VALIDATING; \<open>transactions.get(transactionId)!\<close> after a
  successful \<open>updateStatus\<close> is the object that call returned.
\<close>

definition processTransaction ::
  "js_runtime \<Rightarrow> RulesEngineConfig \<Rightarrow> (string \<times> Rule) list \<Rightarrow> real \<Rightarrow> string \<Rightarrow> nat \<Rightarrow> state
     \<Rightarrow> Transaction outcome" where
  "processTransaction rt cfg rules rnd txid now st =
     (case transactions st txid of
        None \<Rightarrow> (Inl (TransactionNotFound txid), st)
      | Some t0 \<Rightarrow>
     (case updateStatus txid VALIDATING ''system'' (Some ''Starting validation'') now st of
        (Inl e, st1) \<Rightarrow> (Inl e, st1)
      | (Inr transaction, st1) \<Rightarrow>
     (case evaluateTransaction rt cfg rules now transaction of
        Inl e \<Rightarrow> (Inl e, st1)
      | Inr evaluation \<Rightarrow>
          if \<not> allowed evaluation then
            (case updateStatus txid FAILED ''rules-engine''
                    (Some (or_default (denyReason evaluation) ''Rule validation failed'')) now st1 of
               (Inl e, st2) \<Rightarrow> (Inl e, st2)
             | (Inr failedTx, st2) \<Rightarrow>
                 (let failedTx' = failedTx\<lparr> errorCode := Some RULE_VIOLATION,
                                             errorMessage := denyReason evaluation \<rparr>
                  in (Inr failedTx', store txid failedTx' st2)))
          else
     (case updateStatus txid PROCESSING ''system'' (Some ''Processing transaction'') now st1 of
        (Inl e, st2) \<Rightarrow> (Inl e, st2)
      | (Inr t2, st2) \<Rightarrow>
          if rnd > 0.1 then
            (case updateStatus txid COMPLETED ''system''
                    (Some ''Transaction completed successfully'') now st2 of
               (Inl e, st3) \<Rightarrow> (Inl e, st3)
             | (Inr completedTx, st3) \<Rightarrow>
                 (let completedTx' = completedTx\<lparr> completedAt := Some now \<rparr>
                  in (Inr completedTx', store txid completedTx' st3)))
          else
            (case updateStatus txid FAILED ''system'' (Some ''Processing failed'') now st2 of
               (Inl e, st3) \<Rightarrow> (Inl e, st3)
             | (Inr failedTx, st3) \<Rightarrow>
                 (let failedTx' = failedTx\<lparr> errorCode := Some PROCESSING_FAILED,
                                             errorMessage := Some ''Simulated processing failure'' \<rparr>
                  in (Inr failedTx', store txid failedTx' st3)))))))"

text \<open>\<open>retryTransaction\<close> (lines 217-239).\<close>

definition retryTransaction ::
  "js_runtime \<Rightarrow> RulesEngineConfig \<Rightarrow> (string \<times> Rule) list \<Rightarrow> real \<Rightarrow> string \<Rightarrow> nat \<Rightarrow> state
     \<Rightarrow> Transaction outcome" where
  "retryTransaction rt cfg rules rnd txid now st =
     (case transactions st txid of
        None \<Rightarrow> (Inl (TransactionNotFound txid), st)
      | Some transaction \<Rightarrow>
          if status transaction \<noteq> FAILED then (Inl OnlyFailedCanBeRetried, st)
          else if retryCount transaction \<ge> maxRetries transaction then
            (Inl (MaxRetriesExceeded (maxRetries transaction)), st)
          else
            (let st1 = store txid
                         (transaction\<lparr> retryCount := retryCount transaction + 1,
                                       errorCode := None, errorMessage := None \<rparr>) st
             in case updateStatus txid PENDING ''retry-system''
                       (Some ''Retry initiated'') now st1 of
                  (Inl e, st2) \<Rightarrow> (Inl e, st2)
                | (Inr t2, st2) \<Rightarrow> processTransaction rt cfg rules rnd txid now st2))"

text \<open>\<open>cancelTransaction\<close> (lines 244-259).\<close>

definition cancelTransaction ::
  "string \<Rightarrow> string option \<Rightarrow> nat \<Rightarrow> state \<Rightarrow> Transaction outcome" where
  "cancelTransaction txid why now st =
     (case transactions st txid of
        None \<Rightarrow> (Inl (TransactionNotFound txid), st)
      | Some transaction \<Rightarrow>
          if status transaction = COMPLETED then (Inl CannotCancelCompleted, st)
          else if status transaction = CANCELLED then (Inl AlreadyCancelled, st)
          else updateStatus txid CANCELLED ''user''
                 (Some (or_default why ''Cancelled by user'')) now st)"

text \<open>\<open>refundTransaction\<close> (lines 264-275).\<close>

definition refundTransaction ::
  "string \<Rightarrow> string option \<Rightarrow> nat \<Rightarrow> state \<Rightarrow> Transaction outcome" where
  "refundTransaction txid why now st =
     (case transactions st txid of
        None \<Rightarrow> (Inl (TransactionNotFound txid), st)
      | Some transaction \<Rightarrow>
          if status transaction \<noteq> COMPLETED then (Inl OnlyCompletedCanBeRefunded, st)
          else updateStatus txid REFUNDED ''user''
                 (Some (or_default why ''Refunded by user'')) now st)"

section \<open>The default rule set\<close>

text \<open>
  \<open>DEFAULT_RULES\<close> (Rule.ts lines 71-128): the four templates, each named after its
  \<open>name\<close>, and the array in its order. A decimal literal stands for the decimal fraction
  it is written as.
\<close>

definition High_Amount_Threshold :: RuleTemplate where
  "High_Amount_Threshold =
     \<lparr> name = ''High Amount Threshold'',
       rule_description = ''Flag transactions over $10,000'',
       enabled = True,
       rule_priority = 1,
       condition = RuleCondition AMOUNT_THRESHOLD GT (JNum 10000) (Some F_amount) None,
       action = FLAG,
       severity = WARNING \<rparr>"

definition Very_High_Amount_Block :: RuleTemplate where
  "Very_High_Amount_Block =
     \<lparr> name = ''Very High Amount Block'',
       rule_description = ''Block transactions over $100,000'',
       enabled = True,
       rule_priority = 0,
       condition = RuleCondition AMOUNT_THRESHOLD GT (JNum 100000) (Some F_amount) None,
       action = DENY,
       severity = CRITICAL \<rparr>"

definition Minimum_Amount :: RuleTemplate where
  "Minimum_Amount =
     \<lparr> name = ''Minimum Amount'',
       rule_description = ''Reject transactions below $0.01'',
       enabled = True,
       rule_priority = 0,
       condition = RuleCondition AMOUNT_THRESHOLD LT (JNum 0.01) (Some F_amount) None,
       action = DENY,
       severity = ERROR \<rparr>"

definition Supported_Currencies :: RuleTemplate where
  "Supported_Currencies =
     \<lparr> name = ''Supported Currencies'',
       rule_description = ''Only allow USD, EUR, GBP currencies'',
       enabled = True,
       rule_priority = 2,
       condition =
         RuleCondition CURRENCY IN (JArr [JStr ''USD'', JStr ''EUR'', JStr ''GBP''])
           (Some F_currency) None,
       action = ALLOW,
       severity = INFO \<rparr>"

definition DEFAULT_RULES :: "RuleTemplate list" where
  "DEFAULT_RULES =
     [High_Amount_Threshold, Very_High_Amount_Block, Minimum_Amount, Supported_Currencies]"

text \<open>\<open>{ ...ruleTemplate, id: uuidv4(), createdAt: new Date(), updatedAt: new Date() }\<close>.\<close>

definition rule_of_template :: "RuleTemplate \<Rightarrow> string \<Rightarrow> nat \<Rightarrow> Rule" where
  "rule_of_template ruleTemplate uid now =
     \<lparr> name = name ruleTemplate,
       rule_description = rule_description ruleTemplate,
       enabled = enabled ruleTemplate,
       rule_priority = rule_priority ruleTemplate,
       condition = condition ruleTemplate,
       action = action ruleTemplate,
       severity = severity ruleTemplate,
       rule_id = uid,
       rule_createdAt = now,
       rule_updatedAt = now \<rparr>"

text \<open>
  \<open>initializeDefaultRules\<close> (lines 273-283): \<open>rules.set(rule.id, rule)\<close> for each
  template, \<open>uids\<close> being the values of the successive \<open>uuidv4()\<close> calls. \<open>Map.set\<close>
  on a key that is present replaces the value in place and otherwise appends, which is
  \<open>AList.update\<close>.
\<close>

definition initializeDefaultRules ::
  "string list \<Rightarrow> nat \<Rightarrow> (string \<times> Rule) list \<Rightarrow> (string \<times> Rule) list" where
  "initializeDefaultRules uids now rules =
     fold (\<lambda>(uid, ruleTemplate). AList.update uid (rule_of_template ruleTemplate uid now))
       (zip uids DEFAULT_RULES) rules"

text \<open>\<open>resetToDefaults\<close> (lines 497-500): \<open>rules.clear()\<close>, then the default rules.\<close>

definition resetToDefaults :: "string list \<Rightarrow> nat \<Rightarrow> (string \<times> Rule) list \<Rightarrow> (string \<times> Rule) list"
  where
  "resetToDefaults uids now rules = initializeDefaultRules uids now []"

section \<open>Webhook dispatcher (class WebhookService)\<close>

record Webhook =
  wh_id :: string
  wh_name :: string
  wh_url :: string
  wh_secret :: "string option"
  wh_events :: "string list"
  wh_isActive :: bool
  wh_retryCount :: real
  wh_maxRetries :: real
  wh_createdAt :: nat
  wh_updatedAt :: nat

record LogResponse =
  resp_status :: nat
  resp_body :: jsval

record WebhookLog =
  log_id :: string
  webhookId :: string
  log_event :: string
  log_payload :: jsval
  response :: "LogResponse option"
  success :: bool
  log_error :: "string option"
  attempts :: nat
  log_createdAt :: nat

text \<open>
  What \<open>axios.post\<close> does with a request: it resolves with a response whose status is
  2xx, or it rejects with an error that has a message and, when the server answered, the
  response.
\<close>

datatype http_outcome =
    Resolved nat jsval
  | Rejected string "LogResponse option"

text \<open>
  The library functions the dispatcher calls: \<open>JSON.stringify\<close>, the hex digest of
  \<open>crypto.createHmac('sha256', key).update(data)\<close>, and \<open>Date.prototype.toISOString\<close>.
\<close>

record node_library =
  json_stringify :: "jsval \<Rightarrow> string"
  hmac_sha256_hex :: "string \<Rightarrow> string \<Rightarrow> string"
  toISOString :: "nat \<Rightarrow> string"

text \<open>
  What the outside world contributes to the delivery attempt number \<open>k\<close> of one event to
  one webhook: the outcome \<open>post k url body headers\<close> of the HTTP request (\<open>body\<close> as
  serialised on the wire), the value \<open>uuid k\<close> of \<open>uuidv4()\<close> and the reading \<open>clock k\<close>
  of \<open>new Date()\<close>.
\<close>

record environment =
  post :: "nat \<Rightarrow> string \<Rightarrow> string \<Rightarrow> (string \<times> string) list \<Rightarrow> http_outcome"
  uuid :: "nat \<Rightarrow> string"
  clock :: "nat \<Rightarrow> nat"

text \<open>\<open>generateSignature\<close> (lines 270-272).\<close>

definition generateSignature :: "node_library \<Rightarrow> string \<Rightarrow> string \<Rightarrow> string" where
  "generateSignature lib payload secret = hmac_sha256_hex lib secret payload"

text \<open>The object \<open>{ event, timestamp, payload }\<close> of lines 189-193.\<close>

definition envelope :: "string \<Rightarrow> string \<Rightarrow> jsval \<Rightarrow> jsval" where
  "envelope event stamp payload =
     JObj [(''event'', JStr event), (''timestamp'', JStr stamp), (''payload'', payload)]"

text \<open>
  The headers of lines 195-205, in insertion order. \<open>if (webhook.secret)\<close> holds for a
  secret that is present and not the empty string.
\<close>

definition request_headers ::
  "node_library \<Rightarrow> Webhook \<Rightarrow> string \<Rightarrow> string \<Rightarrow> jsval \<Rightarrow> (string \<times> string) list" where
  "request_headers lib webhook event stamp payload =
     [(''Content-Type'', ''application/json''),
      (''X-Webhook-Event'', event),
      (''X-Webhook-Timestamp'', stamp)]
     @ (case wh_secret webhook of
          None \<Rightarrow> []
        | Some s \<Rightarrow>
            if s = [] then []
            else [(''X-Webhook-Signature'',
                   generateSignature lib (json_stringify lib (envelope event stamp payload)) s)])"

text \<open>
  \<open>saveLog\<close> (lines 277-283) on the in-memory store, a \<open>Map\<close> keyed by the log's id.
\<close>

definition saveLog :: "WebhookLog \<Rightarrow> (string \<times> WebhookLog) list \<Rightarrow> (string \<times> WebhookLog) list"
  where
  "saveLog entry logs = AList.update (log_id entry) entry logs"

text \<open>The two log objects of lines 215-227 and 231-244.\<close>

definition success_log ::
  "node_library \<Rightarrow> environment \<Rightarrow> Webhook \<Rightarrow> string \<Rightarrow> jsval \<Rightarrow> nat \<Rightarrow> nat \<Rightarrow> jsval
     \<Rightarrow> WebhookLog" where
  "success_log lib env webhook event payload attempt st data =
     \<lparr> log_id = uuid env attempt,
       webhookId = wh_id webhook,
       log_event = event,
       log_payload = payload,
       response =
         Some \<lparr> resp_status = st,
                resp_body = (case data of JStr s \<Rightarrow> JStr s | d \<Rightarrow> JStr (json_stringify lib d)) \<rparr>,
       success = True,
       log_error = None,
       attempts = attempt,
       log_createdAt = clock env attempt \<rparr>"

definition failure_log ::
  "environment \<Rightarrow> Webhook \<Rightarrow> string \<Rightarrow> jsval \<Rightarrow> nat \<Rightarrow> string \<Rightarrow> LogResponse option
     \<Rightarrow> WebhookLog" where
  "failure_log env webhook event payload attempt msg resp =
     \<lparr> log_id = uuid env attempt,
       webhookId = wh_id webhook,
       log_event = event,
       log_payload = payload,
       response = resp,
       success = False,
       log_error = Some msg,
       attempts = attempt,
       log_createdAt = clock env attempt \<rparr>"

text \<open>The outcome of the request that attempt number \<open>attempt\<close> sends (lines 188-213).\<close>

definition attempt_outcome ::
  "node_library \<Rightarrow> environment \<Rightarrow> Webhook \<Rightarrow> string \<Rightarrow> jsval \<Rightarrow> nat \<Rightarrow> http_outcome" where
  "attempt_outcome lib env webhook event payload attempt =
     (let stamp = toISOString lib (clock env attempt);
          body = envelope event stamp payload;
          headers = request_headers lib webhook event stamp payload
      in post env attempt (wh_url webhook) (json_stringify lib body) headers)"

text \<open>
  \<open>sendWebhook\<close> (lines 182-265). The result is the log store and the timers that the
  call and the calls it schedules have set: \<open>(delay, n)\<close> stands for
  \<open>setTimeout(() => this.sendWebhook(webhook, event, payload, n), delay)\<close>, the delay in
  milliseconds. The scheduled call runs after the log of the current attempt is saved.
  The recursion ends because a retry is scheduled only while \<open>attempt < maxRetries\<close>.
\<close>

function sendWebhook ::
  "node_library \<Rightarrow> environment \<Rightarrow> Webhook \<Rightarrow> string \<Rightarrow> jsval \<Rightarrow> nat
     \<Rightarrow> (string \<times> WebhookLog) list \<Rightarrow> (string \<times> WebhookLog) list \<times> (nat \<times> nat) list" where
  "sendWebhook lib env webhook event payload attempt logs =
     (case attempt_outcome lib env webhook event payload attempt of
        Resolved st data \<Rightarrow>
          (saveLog (success_log lib env webhook event payload attempt st data) logs, [])
      | Rejected msg resp \<Rightarrow>
          (let entry = failure_log env webhook event payload attempt msg resp in
           if real attempt < wh_maxRetries webhook then
             (let delay = 2 ^ attempt * 1000;
                  (logs', timers) =
                     sendWebhook lib env webhook event payload (attempt + 1) (saveLog entry logs)
              in (logs', (delay, attempt + 1) # timers))
           else (saveLog entry logs, [])))"
  by pat_completeness auto
termination
  by (relation "measure (\<lambda>(lib, env, webhook, event, payload, attempt, logs).
                   nat \<lceil>wh_maxRetries webhook\<rceil> - attempt)")
     (auto, linarith)

declare sendWebhook.simps [simp del]

text \<open>\<open>getActiveWebhooksForEvent\<close> (lines 174-177) on the in-memory webhooks.\<close>

definition getActiveWebhooksForEvent :: "(string \<times> Webhook) list \<Rightarrow> string \<Rightarrow> Webhook list" where
  "getActiveWebhooksForEvent webhooks event =
     filter (\<lambda>w. wh_isActive w \<and> event \<in> set (wh_events w)) (map snd webhooks)"

section \<open>Properties of the lifecycle\<close>

text \<open>The two maps as the module creates them.\<close>

definition initial_state :: state where
  "initial_state = \<lparr> transactions = Map.empty, statusHistory = Map.empty \<rparr>"

text \<open>
  \<open>valid_path cur recs new\<close>: the records \<open>recs\<close> lead from status \<open>cur\<close> to status
  \<open>new\<close>, each one starting where the one before ended and each one a member of
  \<open>VALID_STATUS_TRANSITIONS\<close>.
\<close>

fun valid_path :: "TransactionStatus \<Rightarrow> StatusTransition list \<Rightarrow> TransactionStatus \<Rightarrow> bool" where
  "valid_path cur [] new = (cur = new)"
| "valid_path cur (r # rs) new =
     (fromStatus r = cur \<and> toStatus r \<in> set (VALID_STATUS_TRANSITIONS cur)
      \<and> valid_path (toStatus r) rs new)"

text \<open>
  \<open>follows_table st st'\<close>: no transaction appears or disappears between the two states, and
  for every stored transaction the history of \<open>st'\<close> is the history of \<open>st\<close> followed by
  records that lead, through the table, from its status in \<open>st\<close> to its status in \<open>st'\<close>.
\<close>

definition follows_table :: "state \<Rightarrow> state \<Rightarrow> bool" where
  "follows_table st st' =
     (\<forall>i. case transactions st i of
             None \<Rightarrow> transactions st' i = None
           | Some t \<Rightarrow>
               (\<exists>t' recs. transactions st' i = Some t'
                  \<and> getStatusHistory st' i = getStatusHistory st i @ recs
                  \<and> valid_path (status t) recs (status t')))"

text \<open>
  The chain property of a history \<open>h\<close> for a transaction whose status is \<open>cur\<close>: an empty
  history belongs to a PENDING transaction; otherwise the first record starts at PENDING,
  each record ends where the next one starts, and the last record ends at \<open>cur\<close>.
\<close>

fun linked :: "StatusTransition list \<Rightarrow> bool" where
  "linked (r1 # r2 # rs) = (toStatus r1 = fromStatus r2 \<and> linked (r2 # rs))"
| "linked rs = True"

definition history_chain :: "StatusTransition list \<Rightarrow> TransactionStatus \<Rightarrow> bool" where
  "history_chain h cur =
     (if h = [] then cur = PENDING
      else fromStatus (hd h) = PENDING \<and> linked h \<and> toStatus (last h) = cur)"

definition chain_inv :: "state \<Rightarrow> bool" where
  "chain_inv st =
     (\<forall>i t. transactions st i = Some t \<longrightarrow> history_chain (getStatusHistory st i) (status t))"

definition retry_bounded :: "state \<Rightarrow> bool" where
  "retry_bounded st = (\<forall>i t. transactions st i = Some t \<longrightarrow> retryCount t \<le> maxRetries t)"

text \<open>
  The states the service can be in: the module's initial state and whatever any sequence
  of calls of the public operations, with any arguments, makes of it.
\<close>

inductive reachable :: "state \<Rightarrow> bool" where
  init: "reachable initial_state"
| create: "reachable st \<Longrightarrow> reachable (snd (createTransaction uid now request st))"
| update: "reachable st \<Longrightarrow> reachable (snd (updateStatus txid newStatus actor why now st))"
| process: "reachable st \<Longrightarrow> reachable (snd (processTransaction rt cfg rules rnd txid now st))"
| retry: "reachable st \<Longrightarrow> reachable (snd (retryTransaction rt cfg rules rnd txid now st))"
| cancel: "reachable st \<Longrightarrow> reachable (snd (cancelTransaction txid why now st))"
| refund: "reachable st \<Longrightarrow> reachable (snd (refundTransaction txid why now st))"
| clear: "reachable st \<Longrightarrow> reachable (clearAll st)"

text \<open>The retry bound, as a relation between the state before and after an operation.\<close>

definition keeps_retry_bound :: "state \<Rightarrow> state \<Rightarrow> bool" where
  "keeps_retry_bound st st' = (retry_bounded st \<longrightarrow> retry_bounded st')"

section \<open>Properties of rule evaluation\<close>

text \<open>
  \<open>returns_result x\<close>: the evaluation \<open>x\<close> of a rule ended with a result and not with an
  exception. \<open>triggers_deny x\<close>: it ended with a result that did not pass and whose action
  is DENY, the case in which the loop of \<open>evaluateTransaction\<close> sets \<open>allowed = false\<close>.
\<close>

definition returns_result :: "error + RuleEvaluationResult \<Rightarrow> bool" where
  "returns_result x = (case x of Inl e \<Rightarrow> False | Inr res \<Rightarrow> True)"

definition triggers_deny :: "error + RuleEvaluationResult \<Rightarrow> bool" where
  "triggers_deny x =
     (case x of Inl e \<Rightarrow> False | Inr res \<Rightarrow> \<not> passed res \<and> res_action res = DENY)"

section \<open>Properties of webhook delivery\<close>

text \<open>
  The log that attempt number \<open>k\<close> writes: the success log when the request of that
  attempt resolves, the failure log when it is rejected.
\<close>

definition attempt_log ::
  "node_library \<Rightarrow> environment \<Rightarrow> Webhook \<Rightarrow> string \<Rightarrow> jsval \<Rightarrow> nat \<Rightarrow> WebhookLog" where
  "attempt_log lib env webhook event payload k =
     (case attempt_outcome lib env webhook event payload k of
        Resolved st data \<Rightarrow> success_log lib env webhook event payload k st data
      | Rejected msg resp \<Rightarrow> failure_log env webhook event payload k msg resp)"

text \<open>
  The identifiers that \<open>uuidv4()\<close> gives to the logs of the attempts from \<open>attempt\<close> on are
  pairwise different and are not keys of the store.
\<close>

definition fresh_log_ids :: "environment \<Rightarrow> nat \<Rightarrow> (string \<times> WebhookLog) list \<Rightarrow> bool" where
  "fresh_log_ids env attempt logs =
     (inj_on (uuid env) {attempt..} \<and> (\<forall>k\<ge>attempt. uuid env k \<notin> fst ` set logs))"

section \<open>Example data\<close>

definition example_request :: CreateTransactionRequest where
  "example_request =
     \<lparr> req_type = PAYMENT, req_amount = 100, req_currency = ''usd'',
       req_sourceAccount = ''ACC-001'', req_destinationAccount = Some ''ACC-002'',
       req_description = Some ''Test payment'', req_priority = None, req_metadata = None \<rparr>"

definition example_state :: state where
  "example_state = snd (createTransaction ''tx-1'' 0 example_request initial_state)"

definition example_transaction :: Transaction where
  "example_transaction =
     \<lparr> tx_id = ''tx-1'', tx_type = PAYMENT, status = PENDING, priority = NORMAL, amount = 100,
       currency = ''USD'', sourceAccount = ''ACC-001'', destinationAccount = Some ''ACC-002'',
       description = Some ''Test payment'', metadata = None, createdAt = 0, updatedAt = 0,
       completedAt = None, errorCode = None, errorMessage = None, retryCount = 0,
       maxRetries = 3 \<rparr>"

definition exhausted_transaction :: Transaction where
  "exhausted_transaction = example_transaction\<lparr> status := FAILED, retryCount := 3 \<rparr>"

definition exhausted_state :: state where
  "exhausted_state =
     \<lparr> transactions = [''tx-1'' \<mapsto> exhausted_transaction], statusHistory = Map.empty \<rparr>"

text \<open>A runtime in which no coercion yields a number and no pattern matches.\<close>

definition example_runtime :: js_runtime where
  "example_runtime = \<lparr> toNumber = (\<lambda>v. None), regexp_test = (\<lambda>v s. Inr False) \<rparr>"

text \<open>The default rule store with four distinct identifiers.\<close>

definition example_rules :: "(string \<times> Rule) list" where
  "example_rules = initializeDefaultRules [''r1'', ''r2'', ''r3'', ''r4''] 0 []"

definition high_amount_transaction :: Transaction where
  "high_amount_transaction = example_transaction\<lparr> amount := 150000 \<rparr>"

definition yen_transaction :: Transaction where
  "yen_transaction = example_transaction\<lparr> currency := ''JPY'' \<rparr>"

text \<open>
  A webhook with a secret and the default three retries, an endpoint that refuses every
  connection, and stand-ins for the library functions.
\<close>

definition example_webhook :: Webhook where
  "example_webhook =
     \<lparr> wh_id = ''wh-1'', wh_name = ''Orders'', wh_url = ''http://localhost:9/hook'',
       wh_secret = Some ''s3cret'', wh_events = [''transaction.created''], wh_isActive = True,
       wh_retryCount = 0, wh_maxRetries = 3, wh_createdAt = 0, wh_updatedAt = 0 \<rparr>"

definition example_library :: node_library where
  "example_library =
     \<lparr> json_stringify = (\<lambda>v. ''{}''),
       hmac_sha256_hex = (\<lambda>key data. key @ data),
       toISOString = show_nat \<rparr>"

definition unreachable :: environment where
  "unreachable =
     \<lparr> post = (\<lambda>k u body headers. Rejected ''connect ECONNREFUSED'' None),
       uuid = (\<lambda>k. replicate k (CHR ''x'')),
       clock = (\<lambda>k. k) \<rparr>"

section \<open>The lifecycle: transition table, guards, history chain, retry bound\<close>

lemma valid_path_append:
  "valid_path a xs b \<Longrightarrow> valid_path b ys c \<Longrightarrow> valid_path a (xs @ ys) c"
  by (induction xs arbitrary: a) auto

lemma follows_table_refl: "follows_table st st"
  unfolding follows_table_def by (auto split: option.splits intro: exI[of _ "[]"])

lemma follows_table_trans:
  assumes "follows_table a b" and "follows_table b c"
  shows "follows_table a c"
  unfolding follows_table_def
proof
  fix i
  show "case transactions a i of None \<Rightarrow> transactions c i = None
        | Some t \<Rightarrow> \<exists>t' recs. transactions c i = Some t'
           \<and> getStatusHistory c i = getStatusHistory a i @ recs
           \<and> valid_path (status t) recs (status t')"
  proof (cases "transactions a i")
    case None
    with assms have "transactions b i = None"
      unfolding follows_table_def by (auto split: option.splits dest: spec[of _ i])
    with assms(2) have "transactions c i = None"
      unfolding follows_table_def by (auto split: option.splits dest: spec[of _ i])
    with None show ?thesis by simp
  next
    case (Some t)
    with assms(1) obtain t1 r1 where b: "transactions b i = Some t1"
      "getStatusHistory b i = getStatusHistory a i @ r1" "valid_path (status t) r1 (status t1)"
      unfolding follows_table_def by (auto split: option.splits dest!: spec[of _ i])
    with assms(2) obtain t2 r2 where c: "transactions c i = Some t2"
      "getStatusHistory c i = getStatusHistory b i @ r2" "valid_path (status t1) r2 (status t2)"
      unfolding follows_table_def by (auto split: option.splits dest!: spec[of _ i])
    from b c have "getStatusHistory c i = getStatusHistory a i @ (r1 @ r2)" by simp
    moreover from b c have "valid_path (status t) (r1 @ r2) (status t2)"
      by (auto intro: valid_path_append)
    ultimately show ?thesis using Some c(1) by auto
  qed
qed

lemma updateStatus_Inr:
  "updateStatus i s a w n st = (Inr t', st') \<Longrightarrow>
     transactions st' i = Some t' \<and> status t' = s
     \<and> (\<exists>t. transactions st i = Some t \<and> t' = t\<lparr>status := s, updatedAt := n\<rparr>
            \<and> s \<in> set (VALID_STATUS_TRANSITIONS (status t)))"
  by (auto simp: updateStatus_def Let_def split: option.splits if_splits)

lemma updateStatus_Inl:
  "updateStatus i s a w n st = (Inl e, st') \<Longrightarrow> st' = st"
  by (auto simp: updateStatus_def Let_def split: option.splits if_splits)

lemma updateStatus_follows: "follows_table st (snd (updateStatus i s a w n st))"
proof (cases "updateStatus i s a w n st")
  case (Pair r st')
  show ?thesis
  proof (cases r)
    case (Inl e)
    with Pair show ?thesis by (auto dest: updateStatus_Inl simp: follows_table_refl)
  next
    case (Inr t')
    with Pair obtain t where t: "transactions st i = Some t"
        "s \<in> set (VALID_STATUS_TRANSITIONS (status t))"
        "st' = st\<lparr> transactions := (transactions st)(i \<mapsto> t\<lparr>status := s, updatedAt := n\<rparr>),
                  statusHistory := (statusHistory st)(i \<mapsto> getStatusHistory st i @
                     [\<lparr> transactionId = i, fromStatus = status t, toStatus = s, timestamp = n,
                        reason = w, triggeredBy = a \<rparr>]) \<rparr>"
      by (auto simp: updateStatus_def Let_def split: option.splits if_splits)
    have "follows_table st st'"
      unfolding follows_table_def
    proof
      fix j
      show "case transactions st j of None \<Rightarrow> transactions st' j = None
        | Some t \<Rightarrow> \<exists>t' recs. transactions st' j = Some t'
           \<and> getStatusHistory st' j = getStatusHistory st j @ recs
           \<and> valid_path (status t) recs (status t')"
      proof (cases "j = i")
        case True
        with t show ?thesis by (simp add: getStatusHistory_def)
      next
        case False
        with t show ?thesis
          by (auto simp: getStatusHistory_def split: option.splits intro: exI[of _ "[]"])
      qed
    qed
    with Pair show ?thesis by simp
  qed
qed

lemma store_follows:
  "transactions st i = Some t \<Longrightarrow> status t' = status t \<Longrightarrow> follows_table st (store i t' st)"
  unfolding follows_table_def store_def
  by (auto simp: getStatusHistory_def split: option.splits intro: exI[of _ "[]"])


text \<open>
  \<open>processTransaction\<close> and \<open>retryTransaction\<close> are sequences of \<open>updateStatus\<close> calls
  and of writes to properties other than the status. A reflexive and transitive relation
  between states that each of these steps respects is therefore respected by the whole
  operation; the relation is a parameter, so that one case analysis serves every invariant.
\<close>

lemma updateStatus_then:
  assumes trans: "\<And>a b c. R a b \<Longrightarrow> R b c \<Longrightarrow> R a c"
    and upd: "\<And>i s a w n st. R st (snd (updateStatus i s a w n st))"
    and k: "\<And>t st1. updateStatus i s a w n st = (Inr t, st1) \<Longrightarrow> R st1 (snd (K t st1))"
  shows "R st (snd (case updateStatus i s a w n st of
                      (Inl e, st1) \<Rightarrow> (Inl e, st1)
                    | (Inr t, st1) \<Rightarrow> K t st1))"
proof (cases "updateStatus i s a w n st")
  case (Pair r st1)
  have 1: "R st st1" using upd[of st i s a w n] Pair by simp
  show ?thesis
  proof (cases r)
    case (Inl e)
    with Pair 1 show ?thesis by simp
  next
    case (Inr t)
    with Pair k[of t st1] have "R st1 (snd (K t st1))" by simp
    with 1 have "R st (snd (K t st1))" by (rule trans)
    with Pair Inr show ?thesis by simp
  qed
qed

lemma processTransaction_rel:
  assumes refl: "\<And>a. R a a"
    and trans: "\<And>a b c. R a b \<Longrightarrow> R b c \<Longrightarrow> R a c"
    and upd: "\<And>i s a w n st. R st (snd (updateStatus i s a w n st))"
    and sto: "\<And>i t t' st. transactions st i = Some t \<Longrightarrow> status t' = status t \<Longrightarrow>
                retryCount t' = retryCount t \<Longrightarrow> maxRetries t' = maxRetries t \<Longrightarrow>
                R st (store i t' st)"
  shows "R st (snd (processTransaction rt cfg rules rnd i now st))"
proof (cases "transactions st i")
  case None
  then show ?thesis by (simp add: processTransaction_def refl)
next
  case (Some t0)
  have fin1: "R st1 (store i (t\<lparr>errorCode := c, errorMessage := m\<rparr>) st1)"
    if "updateStatus i s a w n st0 = (Inr t, st1)" for st0 st1 s a w n t c m
    using updateStatus_Inr[OF that] by (intro sto) auto
  have fin2: "R st1 (store i (t\<lparr>completedAt := d\<rparr>) st1)"
    if "updateStatus i s a w n st0 = (Inr t, st1)" for st0 st1 s a w n t d
    using updateStatus_Inr[OF that] by (intro sto) auto
  have ut: "R st0 (snd (case updateStatus i s a w n st0 of
                      (Inl e, st1) \<Rightarrow> (Inl e, st1)
                    | (Inr t, st1) \<Rightarrow> K t st1))"
    if "\<And>t st1. updateStatus i s a w n st0 = (Inr t, st1) \<Longrightarrow> R st1 (snd (K t st1))"
    for s a w n st0 and K :: "Transaction \<Rightarrow> state \<Rightarrow> Transaction outcome"
  proof (rule updateStatus_then[where R=R])
    show "R a b \<Longrightarrow> R b c \<Longrightarrow> R a c" for a b c by (rule trans)
    show "R st (snd (updateStatus i s a w n st))" for i s a w n st by (rule upd)
    show "updateStatus i s a w n st0 = (Inr t, st1) \<Longrightarrow> R st1 (snd (K t st1))" for t st1
      by (rule that)
  qed
  show ?thesis
    unfolding processTransaction_def Some option.case
  proof (rule ut, goal_cases)
    case (1 transaction st1)
    show ?case
    proof (cases "evaluateTransaction rt cfg rules now transaction")
      case (Inl e)
      then show ?thesis by (simp add: refl)
    next
      case (Inr evaluation)
      show ?thesis
        unfolding Inr sum.case
        by (auto intro!: ut simp: Let_def fin1 fin2)
    qed
  qed
qed

lemma processTransaction_follows:
  "follows_table st (snd (processTransaction rt cfg rules rnd i now st))"
  by (rule processTransaction_rel[where R=follows_table])
     (auto intro: follows_table_refl follows_table_trans updateStatus_follows store_follows)

lemma cancelTransaction_follows: "follows_table st (snd (cancelTransaction i w now st))"
  by (auto simp: cancelTransaction_def follows_table_refl updateStatus_follows
           split: option.splits)

lemma refundTransaction_follows: "follows_table st (snd (refundTransaction i w now st))"
  by (auto simp: refundTransaction_def follows_table_refl updateStatus_follows
           split: option.splits)

lemma retryTransaction_rel:
  assumes refl: "\<And>a. R a a"
    and trans: "\<And>a b c. R a b \<Longrightarrow> R b c \<Longrightarrow> R a c"
    and upd: "\<And>i s a w n st. R st (snd (updateStatus i s a w n st))"
    and sto: "\<And>i t t' st. transactions st i = Some t \<Longrightarrow> status t' = status t \<Longrightarrow>
                retryCount t' = retryCount t \<Longrightarrow> maxRetries t' = maxRetries t \<Longrightarrow>
                R st (store i t' st)"
    and inc: "\<And>i t st. transactions st i = Some t \<Longrightarrow> retryCount t < maxRetries t \<Longrightarrow>
                R st (store i (t\<lparr> retryCount := retryCount t + 1,
                                    errorCode := None, errorMessage := None \<rparr>) st)"
  shows "R st (snd (retryTransaction rt cfg rules rnd i now st))"
proof (cases "transactions st i")
  case None
  then show ?thesis by (simp add: retryTransaction_def refl)
next
  case (Some t)
  show ?thesis
  proof (cases "status t \<noteq> FAILED \<or> retryCount t \<ge> maxRetries t")
    case True
    with Some show ?thesis by (auto simp: retryTransaction_def refl)
  next
    case False
    let ?st1 = "store i (t\<lparr> retryCount := retryCount t + 1,
                                errorCode := None, errorMessage := None \<rparr>) st"
    have 1: "R st ?st1" using Some False by (intro inc) auto
    obtain res st2 where r:
      "updateStatus i PENDING ''retry-system'' (Some ''Retry initiated'') now ?st1 = (res, st2)"
      by (cases "updateStatus i PENDING ''retry-system'' (Some ''Retry initiated'') now ?st1")
    have 2: "R ?st1 st2"
      using upd[of ?st1 i PENDING "''retry-system''" "Some ''Retry initiated''" now] r by simp
    have 3: "R st2 (snd (processTransaction rt cfg rules rnd i now st2))"
      by (rule processTransaction_rel[OF refl trans upd sto])
    have 12: "R st st2" using 1 2 by (rule trans)
    show ?thesis
    proof (cases res)
      case (Inl e)
      with Some False r have "snd (retryTransaction rt cfg rules rnd i now st) = st2"
        by (simp add: retryTransaction_def Let_def)
      with 12 show ?thesis by simp
    next
      case (Inr t2)
      with Some False r have "snd (retryTransaction rt cfg rules rnd i now st) =
          snd (processTransaction rt cfg rules rnd i now st2)"
        by (simp add: retryTransaction_def Let_def)
      with trans[OF 12 3] show ?thesis by simp
    qed
  qed
qed

lemma retryTransaction_follows:
  "follows_table st (snd (retryTransaction rt cfg rules rnd i now st))"
  by (rule retryTransaction_rel[where R=follows_table])
     (auto intro: follows_table_refl follows_table_trans updateStatus_follows store_follows)

lemma example_state_tx: "transactions example_state ''tx-1'' = Some example_transaction"
  by (simp add: example_state_def createTransaction_def example_request_def initial_state_def Let_def
        example_transaction_def toUpperCase_def upper_char_def)

lemma linked_snoc:
  "linked (h @ [r]) = (linked h \<and> (h \<noteq> [] \<longrightarrow> toStatus (last h) = fromStatus r))"
  by (induction h rule: linked.induct) auto

lemma history_chain_snoc:
  "history_chain h a \<Longrightarrow> fromStatus r = a \<Longrightarrow> history_chain (h @ [r]) (toStatus r)"
  by (auto simp: history_chain_def linked_snoc hd_append)

lemma history_chain_path:
  "history_chain h a \<Longrightarrow> valid_path a recs b \<Longrightarrow> history_chain (h @ recs) b"
proof (induction recs arbitrary: h a)
  case Nil
  then show ?case by simp
next
  case (Cons r recs)
  from Cons.prems have "history_chain (h @ [r]) (toStatus r)"
    by (intro history_chain_snoc) auto
  moreover from Cons.prems have "valid_path (toStatus r) recs b" by simp
  ultimately have "history_chain ((h @ [r]) @ recs) b" by (rule Cons.IH)
  then show ?case by simp
qed

lemma chain_inv_follows:
  assumes "chain_inv st" and "follows_table st st'"
  shows "chain_inv st'"
  unfolding chain_inv_def
proof (intro allI impI)
  fix i t' assume t': "transactions st' i = Some t'"
  from assms(2) have f: "case transactions st i of None \<Rightarrow> transactions st' i = None
           | Some t \<Rightarrow> (\<exists>t' recs. transactions st' i = Some t'
                  \<and> getStatusHistory st' i = getStatusHistory st i @ recs
                  \<and> valid_path (status t) recs (status t'))"
    unfolding follows_table_def by blast
  show "history_chain (getStatusHistory st' i) (status t')"
  proof (cases "transactions st i")
    case None
    with f t' show ?thesis by simp
  next
    case (Some t)
    with f t' obtain recs where r: "getStatusHistory st' i = getStatusHistory st i @ recs"
      "valid_path (status t) recs (status t')" by auto
    from assms(1) Some have "history_chain (getStatusHistory st i) (status t)"
      unfolding chain_inv_def by blast
    with r show ?thesis by (simp add: history_chain_path)
  qed
qed

lemma createTransaction_fresh:
  "createTransaction uid now request st = (Inr t, st') \<Longrightarrow>
     status t = PENDING \<and> retryCount t = 0 \<and> maxRetries t = 3
     \<and> transactions st' = (transactions st)(uid \<mapsto> t)
     \<and> statusHistory st' = (statusHistory st)(uid \<mapsto> [])"
  by (auto simp: createTransaction_def Let_def split: if_splits)

lemma createTransaction_Inl:
  "createTransaction uid now request st = (Inl e, st') \<Longrightarrow> st' = st"
  by (auto simp: createTransaction_def Let_def split: if_splits)

lemma chain_inv_create: "chain_inv st \<Longrightarrow> chain_inv (snd (createTransaction uid now request st))"
proof (cases "createTransaction uid now request st")
  case (Pair r st')
  assume inv: "chain_inv st"
  show ?thesis
  proof (cases r)
    case (Inl e)
    with Pair inv show ?thesis by (auto dest: createTransaction_Inl)
  next
    case (Inr t)
    with Pair have "createTransaction uid now request st = (Inr t, st')" by simp
    from createTransaction_fresh[OF this] inv have "chain_inv st'"
      by (auto simp: chain_inv_def getStatusHistory_def history_chain_def)
    with Pair show ?thesis by simp
  qed
qed

lemma chain_inv_initial: "chain_inv initial_state"
  by (simp add: chain_inv_def initial_state_def)

lemma chain_inv_clearAll: "chain_inv (clearAll st)"
  by (simp add: chain_inv_def clearAll_def)

lemma chain_inv_reachable: "reachable st \<Longrightarrow> chain_inv st"
proof (induction rule: reachable.induct)
  case init
  show ?case by (rule chain_inv_initial)
next
  case (create st uid now request)
  then show ?case by (simp add: chain_inv_create)
next
  case (update st txid newStatus actor why now)
  then show ?case by (blast intro: chain_inv_follows updateStatus_follows)
next
  case (process st rt cfg rules rnd txid now)
  then show ?case by (blast intro: chain_inv_follows processTransaction_follows)
next
  case (retry st rt cfg rules rnd txid now)
  then show ?case by (blast intro: chain_inv_follows retryTransaction_follows)
next
  case (cancel st txid why now)
  then show ?case by (blast intro: chain_inv_follows cancelTransaction_follows)
next
  case (refund st txid why now)
  then show ?case by (blast intro: chain_inv_follows refundTransaction_follows)
next
  case (clear st)
  show ?case by (rule chain_inv_clearAll)
qed

lemma retry_bounded_updateStatus:
  "retry_bounded st \<Longrightarrow> retry_bounded (snd (updateStatus i s a w n st))"
  by (auto simp: retry_bounded_def updateStatus_def Let_def split: option.splits if_splits)

lemma retry_bounded_store:
  "retry_bounded st \<Longrightarrow> retryCount t' \<le> maxRetries t' \<Longrightarrow> retry_bounded (store i t' st)"
  by (auto simp: retry_bounded_def store_def)

lemma keeps_retry_bound_refl: "keeps_retry_bound a a"
  by (simp add: keeps_retry_bound_def)

lemma keeps_retry_bound_trans:
  "keeps_retry_bound a b \<Longrightarrow> keeps_retry_bound b c \<Longrightarrow> keeps_retry_bound a c"
  by (simp add: keeps_retry_bound_def)

lemma keeps_retry_bound_updateStatus:
  "keeps_retry_bound st (snd (updateStatus i s a w n st))"
  by (simp add: keeps_retry_bound_def retry_bounded_updateStatus)

lemma keeps_retry_bound_store:
  assumes "transactions st i = Some t" and "retryCount t' = retryCount t"
    and "maxRetries t' = maxRetries t"
  shows "keeps_retry_bound st (store i t' st)"
  unfolding keeps_retry_bound_def
proof
  assume rb: "retry_bounded st"
  with assms have "retryCount t' \<le> maxRetries t'" by (auto simp: retry_bounded_def)
  with rb show "retry_bounded (store i t' st)" by (rule retry_bounded_store)
qed

lemma keeps_retry_bound_increment:
  assumes "transactions st i = Some t" and "retryCount t < maxRetries t"
  shows "keeps_retry_bound st
           (store i (t\<lparr> retryCount := retryCount t + 1,
                         errorCode := None, errorMessage := None \<rparr>) st)"
  unfolding keeps_retry_bound_def
proof
  assume rb: "retry_bounded st"
  from assms(2) show "retry_bounded (store i (t\<lparr> retryCount := retryCount t + 1,
                         errorCode := None, errorMessage := None \<rparr>) st)"
    by (intro retry_bounded_store[OF rb]) simp
qed

lemma retry_bounded_process:
  assumes "retry_bounded st"
  shows "retry_bounded (snd (processTransaction rt cfg rules rnd i now st))"
proof -
  have "keeps_retry_bound st (snd (processTransaction rt cfg rules rnd i now st))"
  proof (rule processTransaction_rel[where R=keeps_retry_bound])
    show "keeps_retry_bound a a" for a by (rule keeps_retry_bound_refl)
    show "keeps_retry_bound a b \<Longrightarrow> keeps_retry_bound b c \<Longrightarrow> keeps_retry_bound a c"
      for a b c by (rule keeps_retry_bound_trans)
    show "keeps_retry_bound st (snd (updateStatus i s a w n st))" for i s a w n st
      by (rule keeps_retry_bound_updateStatus)
    show "transactions st i = Some t \<Longrightarrow> status t' = status t \<Longrightarrow>
          retryCount t' = retryCount t \<Longrightarrow> maxRetries t' = maxRetries t \<Longrightarrow>
          keeps_retry_bound st (store i t' st)" for i t t' st
      by (rule keeps_retry_bound_store)
  qed
  with assms show ?thesis by (simp add: keeps_retry_bound_def)
qed

lemma retry_bounded_retry:
  assumes "retry_bounded st"
  shows "retry_bounded (snd (retryTransaction rt cfg rules rnd i now st))"
proof -
  have "keeps_retry_bound st (snd (retryTransaction rt cfg rules rnd i now st))"
  proof (rule retryTransaction_rel[where R=keeps_retry_bound])
    show "keeps_retry_bound a a" for a by (rule keeps_retry_bound_refl)
    show "keeps_retry_bound a b \<Longrightarrow> keeps_retry_bound b c \<Longrightarrow> keeps_retry_bound a c"
      for a b c by (rule keeps_retry_bound_trans)
    show "keeps_retry_bound st (snd (updateStatus i s a w n st))" for i s a w n st
      by (rule keeps_retry_bound_updateStatus)
    show "transactions st i = Some t \<Longrightarrow> status t' = status t \<Longrightarrow>
          retryCount t' = retryCount t \<Longrightarrow> maxRetries t' = maxRetries t \<Longrightarrow>
          keeps_retry_bound st (store i t' st)" for i t t' st
      by (rule keeps_retry_bound_store)
    show "transactions st i = Some t \<Longrightarrow> retryCount t < maxRetries t \<Longrightarrow>
          keeps_retry_bound st
            (store i (t\<lparr> retryCount := retryCount t + 1,
                          errorCode := None, errorMessage := None \<rparr>) st)" for i t st
      by (rule keeps_retry_bound_increment)
  qed
  with assms show ?thesis by (simp add: keeps_retry_bound_def)
qed

lemma retry_bounded_cancel:
  "retry_bounded st \<Longrightarrow> retry_bounded (snd (cancelTransaction i w now st))"
  by (auto simp: cancelTransaction_def retry_bounded_updateStatus split: option.splits)

lemma retry_bounded_refund:
  "retry_bounded st \<Longrightarrow> retry_bounded (snd (refundTransaction i w now st))"
  by (auto simp: refundTransaction_def retry_bounded_updateStatus split: option.splits)

lemma retry_bounded_create:
  "retry_bounded st \<Longrightarrow> retry_bounded (snd (createTransaction uid now request st))"
  by (auto simp: createTransaction_def Let_def retry_bounded_def)

lemma retry_bounded_reachable: "reachable st \<Longrightarrow> retry_bounded st"
proof (induction rule: reachable.induct)
  case init
  show ?case by (simp add: retry_bounded_def initial_state_def)
next
  case (clear st)
  show ?case by (simp add: retry_bounded_def clearAll_def)
qed (simp_all add: retry_bounded_create retry_bounded_updateStatus retry_bounded_process
       retry_bounded_retry retry_bounded_cancel retry_bounded_refund)

text \<open>
  Claim C1. The table is the one of the specification. \<open>updateStatus\<close> refuses a status
  that the table does not allow from the current one: it returns the invalid-transition
  error, whose message names the current and the requested status, and the state (status
  and history) is unchanged. When it accepts, the new status is in the table and the
  transition is appended to the history. Every operation that changes a status
  (\<open>updateStatus\<close>, \<open>processTransaction\<close>, \<open>retryTransaction\<close>, \<open>cancelTransaction\<close>,
  \<open>refundTransaction\<close>) changes it only along recorded transitions of the table.
\<close>

theorem status_changes_follow_transition_table:
  "(set (VALID_STATUS_TRANSITIONS PENDING) = {VALIDATING, CANCELLED}
    \<and> set (VALID_STATUS_TRANSITIONS VALIDATING) = {PROCESSING, FAILED, CANCELLED}
    \<and> set (VALID_STATUS_TRANSITIONS PROCESSING) = {COMPLETED, FAILED}
    \<and> set (VALID_STATUS_TRANSITIONS COMPLETED) = {REFUNDED}
    \<and> set (VALID_STATUS_TRANSITIONS FAILED) = {PENDING}
    \<and> set (VALID_STATUS_TRANSITIONS CANCELLED) = {}
    \<and> set (VALID_STATUS_TRANSITIONS REFUNDED) = {})
   \<and> (transactions st txid = Some t \<and> newStatus \<notin> set (VALID_STATUS_TRANSITIONS (status t)) \<longrightarrow>
        updateStatus txid newStatus actor why now st
          = (Inl (InvalidStatusTransition (status t) newStatus), st)
        \<and> error_message (InvalidStatusTransition (status t) newStatus)
          = ''Invalid status transition from '' @ status_str (status t) @ '' to ''
              @ status_str newStatus)
   \<and> (\<forall>t' st'. updateStatus txid newStatus actor why now st = (Inr t', st') \<longrightarrow>
        (\<exists>t. transactions st txid = Some t
           \<and> newStatus \<in> set (VALID_STATUS_TRANSITIONS (status t))
           \<and> status t' = newStatus \<and> transactions st' txid = Some t'
           \<and> getStatusHistory st' txid = getStatusHistory st txid @
                [\<lparr> transactionId = txid, fromStatus = status t, toStatus = newStatus,
                   timestamp = now, reason = why, triggeredBy = actor \<rparr>]))
   \<and> follows_table st (snd (updateStatus txid newStatus actor why now st))
   \<and> follows_table st (snd (processTransaction rt cfg rules rnd txid now st))
   \<and> follows_table st (snd (retryTransaction rt cfg rules rnd txid now st))
   \<and> follows_table st (snd (cancelTransaction txid why now st))
   \<and> follows_table st (snd (refundTransaction txid why now st))"
proof -
  have tab: "set (VALID_STATUS_TRANSITIONS PENDING) = {VALIDATING, CANCELLED}
    \<and> set (VALID_STATUS_TRANSITIONS VALIDATING) = {PROCESSING, FAILED, CANCELLED}
    \<and> set (VALID_STATUS_TRANSITIONS PROCESSING) = {COMPLETED, FAILED}
    \<and> set (VALID_STATUS_TRANSITIONS COMPLETED) = {REFUNDED}
    \<and> set (VALID_STATUS_TRANSITIONS FAILED) = {PENDING}
    \<and> set (VALID_STATUS_TRANSITIONS CANCELLED) = {}
    \<and> set (VALID_STATUS_TRANSITIONS REFUNDED) = {}"
    by simp
  have rej: "transactions st txid = Some t \<and> newStatus \<notin> set (VALID_STATUS_TRANSITIONS (status t)) \<longrightarrow>
        updateStatus txid newStatus actor why now st
          = (Inl (InvalidStatusTransition (status t) newStatus), st)
        \<and> error_message (InvalidStatusTransition (status t) newStatus)
          = ''Invalid status transition from '' @ status_str (status t) @ '' to ''
              @ status_str newStatus"
    by (simp add: updateStatus_def Let_def)
  have acc: "\<forall>t' st'. updateStatus txid newStatus actor why now st = (Inr t', st') \<longrightarrow>
        (\<exists>t. transactions st txid = Some t
           \<and> newStatus \<in> set (VALID_STATUS_TRANSITIONS (status t))
           \<and> status t' = newStatus \<and> transactions st' txid = Some t'
           \<and> getStatusHistory st' txid = getStatusHistory st txid @
                [\<lparr> transactionId = txid, fromStatus = status t, toStatus = newStatus,
                   timestamp = now, reason = why, triggeredBy = actor \<rparr>])"
    by (auto simp: updateStatus_def Let_def getStatusHistory_def split: option.splits if_splits)
  show ?thesis
    by (rule conjI[OF tab], rule conjI[OF rej], rule conjI[OF acc])
       (intro conjI updateStatus_follows processTransaction_follows retryTransaction_follows
          cancelTransaction_follows refundTransaction_follows)
qed

text \<open>The refusal at a PENDING transaction asked to become COMPLETED.\<close>

theorem status_changes_follow_transition_table_witness:
  "transactions example_state ''tx-1'' = Some example_transaction
   \<and> COMPLETED \<notin> set (VALID_STATUS_TRANSITIONS (status example_transaction))
   \<and> updateStatus ''tx-1'' COMPLETED ''test'' None 1 example_state
       = (Inl (InvalidStatusTransition PENDING COMPLETED), example_state)
   \<and> error_message (InvalidStatusTransition PENDING COMPLETED)
       = ''Invalid status transition from PENDING to COMPLETED''"
proof -
  have h: "transactions example_state ''tx-1'' = Some example_transaction
           \<and> COMPLETED \<notin> set (VALID_STATUS_TRANSITIONS (status example_transaction))"
    by (simp add: example_state_tx example_transaction_def)
  have s: "status example_transaction = PENDING" by (simp add: example_transaction_def)
  from status_changes_follow_transition_table
         [where st = example_state and txid = "''tx-1''" and t = example_transaction
            and newStatus = COMPLETED and actor = "''test''" and why = None and now = 1,
          THEN conjunct2, THEN conjunct1, THEN mp, OF h]
  have "updateStatus ''tx-1'' COMPLETED ''test'' None 1 example_state
          = (Inl (InvalidStatusTransition PENDING COMPLETED), example_state)
        \<and> error_message (InvalidStatusTransition PENDING COMPLETED)
          = ''Invalid status transition from PENDING to COMPLETED''"
    unfolding s by simp
  with h show ?thesis by simp
qed

text \<open>
  Claim C6. \<open>cancelTransaction\<close> fails on a COMPLETED and on a CANCELLED transaction,
  \<open>refundTransaction\<close> fails on a transaction in any status other than COMPLETED, and each
  of these failures returns the state as it was: status and history are unchanged.
\<close>

theorem cancel_and_refund_guards:
  "(transactions st txid = Some t \<and> status t = COMPLETED \<longrightarrow>
      cancelTransaction txid why now st = (Inl CannotCancelCompleted, st))
   \<and> (transactions st txid = Some t \<and> status t = CANCELLED \<longrightarrow>
      cancelTransaction txid why now st = (Inl AlreadyCancelled, st))
   \<and> (transactions st txid = Some t \<and> status t \<noteq> COMPLETED \<longrightarrow>
      refundTransaction txid why now st = (Inl OnlyCompletedCanBeRefunded, st))"
  by (simp add: cancelTransaction_def refundTransaction_def)

text \<open>A refund of a PENDING transaction.\<close>

theorem cancel_and_refund_guards_witness:
  "transactions example_state ''tx-1'' = Some example_transaction
   \<and> status example_transaction \<noteq> COMPLETED
   \<and> refundTransaction ''tx-1'' None 1 example_state
       = (Inl OnlyCompletedCanBeRefunded, example_state)"
proof -
  have h: "transactions example_state ''tx-1'' = Some example_transaction
           \<and> status example_transaction \<noteq> COMPLETED"
    by (simp add: example_state_tx example_transaction_def)
  from cancel_and_refund_guards
         [where st = example_state and txid = "''tx-1''" and t = example_transaction
            and why = None and now = 1,
          THEN conjunct2, THEN conjunct2, THEN mp, OF h]
  have "refundTransaction ''tx-1'' None 1 example_state
          = (Inl OnlyCompletedCanBeRefunded, example_state)" .
  with h show ?thesis by simp
qed

text \<open>
  Claim C9. A freshly created transaction is PENDING with an empty history; the chain
  property of all stored transactions is preserved by creation, \<open>updateStatus\<close>,
  \<open>processTransaction\<close>, \<open>retryTransaction\<close>, \<open>cancelTransaction\<close> and
  \<open>refundTransaction\<close>; hence in every reachable state the history of every stored
  transaction is a chain from PENDING to its current status.
\<close>

theorem status_history_is_a_chain:
  "(\<forall>t st'. createTransaction uid now request st = (Inr t, st') \<longrightarrow>
       status t = PENDING \<and> transactions st' uid = Some t \<and> getStatusHistory st' uid = [])
   \<and> (chain_inv st \<longrightarrow>
         chain_inv (snd (createTransaction uid now request st))
       \<and> chain_inv (snd (updateStatus txid newStatus actor why now st))
       \<and> chain_inv (snd (processTransaction rt cfg rules rnd txid now st))
       \<and> chain_inv (snd (retryTransaction rt cfg rules rnd txid now st))
       \<and> chain_inv (snd (cancelTransaction txid why now st))
       \<and> chain_inv (snd (refundTransaction txid why now st)))
   \<and> (reachable st \<and> transactions st txid = Some tx \<longrightarrow>
         history_chain (getStatusHistory st txid) (status tx))"
proof -
  have fresh: "\<forall>t st'. createTransaction uid now request st = (Inr t, st') \<longrightarrow>
       status t = PENDING \<and> transactions st' uid = Some t \<and> getStatusHistory st' uid = []"
    by (auto dest!: createTransaction_fresh simp: getStatusHistory_def)
  have pres: "chain_inv st \<longrightarrow>
         chain_inv (snd (createTransaction uid now request st))
       \<and> chain_inv (snd (updateStatus txid newStatus actor why now st))
       \<and> chain_inv (snd (processTransaction rt cfg rules rnd txid now st))
       \<and> chain_inv (snd (retryTransaction rt cfg rules rnd txid now st))
       \<and> chain_inv (snd (cancelTransaction txid why now st))
       \<and> chain_inv (snd (refundTransaction txid why now st))"
  proof
    assume inv: "chain_inv st"
    note f = chain_inv_follows[OF inv]
    show "chain_inv (snd (createTransaction uid now request st))
       \<and> chain_inv (snd (updateStatus txid newStatus actor why now st))
       \<and> chain_inv (snd (processTransaction rt cfg rules rnd txid now st))
       \<and> chain_inv (snd (retryTransaction rt cfg rules rnd txid now st))
       \<and> chain_inv (snd (cancelTransaction txid why now st))
       \<and> chain_inv (snd (refundTransaction txid why now st))"
      by (intro conjI chain_inv_create[OF inv] f updateStatus_follows processTransaction_follows
            retryTransaction_follows cancelTransaction_follows refundTransaction_follows)
  qed
  have reach: "reachable st \<and> transactions st txid = Some tx \<longrightarrow>
         history_chain (getStatusHistory st txid) (status tx)"
    using chain_inv_reachable[of st] by (auto simp: chain_inv_def)
  show ?thesis
    by (rule conjI[OF fresh], rule conjI[OF pres], rule reach)
qed

text \<open>The state after one creation.\<close>

theorem status_history_is_a_chain_witness:
  "reachable example_state \<and> transactions example_state ''tx-1'' = Some example_transaction
   \<and> history_chain (getStatusHistory example_state ''tx-1'') (status example_transaction)"
proof -
  have r: "reachable example_state"
    unfolding example_state_def by (rule reachable.create[OF reachable.init])
  have h: "reachable example_state
           \<and> transactions example_state ''tx-1'' = Some example_transaction"
    using r example_state_tx by simp
  from status_history_is_a_chain
         [where st = example_state and txid = "''tx-1''" and tx = example_transaction,
          THEN conjunct2, THEN conjunct2, THEN mp, OF h]
  have "history_chain (getStatusHistory example_state ''tx-1'') (status example_transaction)" .
  with h show ?thesis by simp
qed

text \<open>
  Claim C4. In every reachable state \<open>retryCount \<le> maxRetries\<close> holds for every stored
  transaction, and every operation preserves that bound. \<open>retryTransaction\<close> on a FAILED
  transaction with \<open>retryCount \<ge> maxRetries\<close> returns the retries-exhausted error and
  the state as it was, whatever the rules and the random draw are: the transaction is
  unchanged and nothing was processed.
\<close>

theorem retry_count_bounded:
  "(reachable st \<and> transactions st txid = Some t \<longrightarrow> retryCount t \<le> maxRetries t)
   \<and> (retry_bounded st \<longrightarrow>
         retry_bounded (snd (createTransaction uid now request st))
       \<and> retry_bounded (snd (updateStatus txid newStatus actor why now st))
       \<and> retry_bounded (snd (processTransaction rt cfg rules rnd txid now st))
       \<and> retry_bounded (snd (retryTransaction rt cfg rules rnd txid now st))
       \<and> retry_bounded (snd (cancelTransaction txid why now st))
       \<and> retry_bounded (snd (refundTransaction txid why now st)))
   \<and> (transactions st txid = Some t \<and> status t = FAILED \<and> retryCount t \<ge> maxRetries t \<longrightarrow>
         retryTransaction rt cfg rules rnd txid now st
           = (Inl (MaxRetriesExceeded (maxRetries t)), st)
         \<and> error_message (MaxRetriesExceeded (maxRetries t))
           = ''Maximum retry attempts ('' @ show_nat (maxRetries t) @ '') exceeded'')"
proof -
  have a: "reachable st \<and> transactions st txid = Some t \<longrightarrow> retryCount t \<le> maxRetries t"
    using retry_bounded_reachable[of st] by (auto simp: retry_bounded_def)
  have b: "retry_bounded st \<longrightarrow>
         retry_bounded (snd (createTransaction uid now request st))
       \<and> retry_bounded (snd (updateStatus txid newStatus actor why now st))
       \<and> retry_bounded (snd (processTransaction rt cfg rules rnd txid now st))
       \<and> retry_bounded (snd (retryTransaction rt cfg rules rnd txid now st))
       \<and> retry_bounded (snd (cancelTransaction txid why now st))
       \<and> retry_bounded (snd (refundTransaction txid why now st))"
    by (intro impI conjI retry_bounded_create retry_bounded_updateStatus retry_bounded_process
          retry_bounded_retry retry_bounded_cancel retry_bounded_refund)
  have c: "transactions st txid = Some t \<and> status t = FAILED \<and> retryCount t \<ge> maxRetries t \<longrightarrow>
         retryTransaction rt cfg rules rnd txid now st
           = (Inl (MaxRetriesExceeded (maxRetries t)), st)
         \<and> error_message (MaxRetriesExceeded (maxRetries t))
           = ''Maximum retry attempts ('' @ show_nat (maxRetries t) @ '') exceeded''"
    by (simp add: retryTransaction_def)
  show ?thesis
    by (rule conjI[OF a], rule conjI[OF b], rule c)
qed

text \<open>A FAILED transaction that has used its three retries.\<close>

theorem retry_count_bounded_witness:
  "transactions exhausted_state ''tx-1'' = Some exhausted_transaction
   \<and> status exhausted_transaction = FAILED
   \<and> retryCount exhausted_transaction \<ge> maxRetries exhausted_transaction
   \<and> retryTransaction example_runtime defaultConfig [] (1 / 2) ''tx-1'' 9 exhausted_state
       = (Inl (MaxRetriesExceeded 3), exhausted_state)"
proof -
  have h: "transactions exhausted_state ''tx-1'' = Some exhausted_transaction
           \<and> status exhausted_transaction = FAILED
           \<and> retryCount exhausted_transaction \<ge> maxRetries exhausted_transaction"
    by (simp add: exhausted_state_def exhausted_transaction_def example_transaction_def)
  have m: "maxRetries exhausted_transaction = 3"
    by (simp add: exhausted_transaction_def example_transaction_def)
  from retry_count_bounded
         [where st = exhausted_state and txid = "''tx-1''" and t = exhausted_transaction
            and rt = example_runtime and cfg = defaultConfig and rules = "[]"
            and rnd = "1 / 2" and now = 9,
          THEN conjunct2, THEN conjunct2, THEN mp, OF h, THEN conjunct1]
  have "retryTransaction example_runtime defaultConfig [] (1 / 2) ''tx-1'' 9 exhausted_state
          = (Inl (MaxRetriesExceeded 3), exhausted_state)"
    unfolding m .
  with h show ?thesis by simp
qed

section \<open>The rules engine: conditions, evaluation order, short circuit, default rules\<close>

text \<open>
  Claim C10. A condition with operator AND and an empty \<open>children\<close> array is true, one
  with operator OR and an empty array is false; when \<open>children\<close> is absent, AND and OR fall
  through to the leaf part, which is false when no field is named and, AND and OR not being
  cases of its \<open>switch\<close>, false also when one is. This holds for every transaction and
  every runtime.
\<close>

theorem composite_condition_edge_cases:
  "evaluateCondition rt (RuleCondition ty AND v f (Some [])) transaction = Inr True
   \<and> evaluateCondition rt (RuleCondition ty OR v f (Some [])) transaction = Inr False
   \<and> evaluateCondition rt (RuleCondition ty AND v f None) transaction
       = evaluateLeaf rt AND v f transaction
   \<and> evaluateCondition rt (RuleCondition ty OR v f None) transaction
       = evaluateLeaf rt OR v f transaction
   \<and> evaluateLeaf rt AND v None transaction = Inr False
   \<and> evaluateLeaf rt OR v None transaction = Inr False
   \<and> evaluateLeaf rt AND v f transaction = Inr False
   \<and> evaluateLeaf rt OR v f transaction = Inr False"
  by (cases f) (simp_all add: evaluateLeaf_def)

lemma evaluate_loop_results_prefix:
  assumes "list_all (\<lambda>r. returns_result (evaluateRule rt now r transaction)
                        \<and> \<not> triggers_deny (evaluateRule rt now r transaction)) pre"
  shows "evaluate_loop rt cfg now transaction (pre @ rest) acc =
           evaluate_loop rt cfg now transaction rest
             (acc\<lparr> results := results acc @ map (\<lambda>r. projr (evaluateRule rt now r transaction)) pre,
                   flagged := flagged acc \<or> list_ex (\<lambda>r. \<not> passed (projr (evaluateRule rt now r transaction))
                                  \<and> res_action (projr (evaluateRule rt now r transaction)) = FLAG) pre,
                   requiresApproval := requiresApproval acc \<or>
                      list_ex (\<lambda>r. \<not> passed (projr (evaluateRule rt now r transaction))
                                  \<and> res_action (projr (evaluateRule rt now r transaction)) = REQUIRE_APPROVAL) pre \<rparr>)"
  using assms
proof (induction pre arbitrary: acc)
  case Nil
  show ?case by simp
next
  case (Cons r pre)
  from Cons.prems obtain res where res: "evaluateRule rt now r transaction = Inr res"
    and nd: "\<not> (\<not> passed res \<and> res_action res = DENY)"
    by (auto simp: returns_result_def triggers_deny_def split: sum.splits)
  from Cons.prems have rest: "list_all (\<lambda>r. returns_result (evaluateRule rt now r transaction)
                        \<and> \<not> triggers_deny (evaluateRule rt now r transaction)) pre"
    by simp
  show ?case
    using nd by (cases "res_action res") (auto simp: res Let_def Cons.IH[OF rest])
qed


lemma evaluate_loop_complete:
  assumes "list_all (\<lambda>r. returns_result (evaluateRule rt now r transaction)
             \<and> (stopOnFirstDeny cfg \<longrightarrow> \<not> triggers_deny (evaluateRule rt now r transaction))) rs"
  shows "\<exists>ev. evaluate_loop rt cfg now transaction rs acc = Inr ev
           \<and> map Inr (results ev)
               = map Inr (results acc) @ map (\<lambda>r. evaluateRule rt now r transaction) rs
           \<and> (allowed ev \<longleftrightarrow>
                allowed acc \<and> \<not> list_ex (\<lambda>r. triggers_deny (evaluateRule rt now r transaction)) rs)"
  using assms
proof (induction rs arbitrary: acc)
  case Nil
  show ?case by simp
next
  case (Cons r rs)
  from Cons.prems obtain res where res: "evaluateRule rt now r transaction = Inr res"
    by (auto simp: returns_result_def split: sum.splits)
  from Cons.prems have stop: "stopOnFirstDeny cfg \<longrightarrow> \<not> (\<not> passed res \<and> res_action res = DENY)"
    by (simp add: res triggers_deny_def)
  from Cons.prems have rest: "list_all (\<lambda>r. returns_result (evaluateRule rt now r transaction)
             \<and> (stopOnFirstDeny cfg \<longrightarrow> \<not> triggers_deny (evaluateRule rt now r transaction))) rs"
    by simp
  note IH = Cons.IH[OF rest]
  show ?case
  proof (cases "\<not> passed res \<and> res_action res = DENY")
    case True
    with stop have ns: "\<not> stopOnFirstDeny cfg" by blast
    from IH[of "acc\<lparr>results := results acc @ [res], allowed := False,
                    denyReason := Some (message res)\<rparr>"] True ns
    show ?thesis by (auto simp: res Let_def triggers_deny_def)
  next
    case False
    show ?thesis
    proof (cases "passed res")
      case True
      with IH[of "acc\<lparr>results := results acc @ [res]\<rparr>"]
      show ?thesis by (auto simp: res Let_def triggers_deny_def)
    next
      case np: False
      with False have nd: "res_action res \<noteq> DENY" by simp
      show ?thesis
      proof (cases "res_action res")
        case ALLOW
        with np IH[of "acc\<lparr>results := results acc @ [res]\<rparr>"]
        show ?thesis by (auto simp: res Let_def triggers_deny_def)
      next
        case DENY
        with nd show ?thesis by simp
      next
        case FLAG
        with np IH[of "acc\<lparr>results := results acc @ [res], flagged := True\<rparr>"]
        show ?thesis by (auto simp: res Let_def triggers_deny_def)
      next
        case REQUIRE_APPROVAL
        with np IH[of "acc\<lparr>results := results acc @ [res], requiresApproval := True\<rparr>"]
        show ?thesis by (auto simp: res Let_def triggers_deny_def)
      qed
    qed
  qed
qed

lemma evaluate_loop_short_circuit:
  assumes stop: "stopOnFirstDeny cfg"
    and pre: "list_all (\<lambda>r. returns_result (evaluateRule rt now r transaction)
                        \<and> \<not> triggers_deny (evaluateRule rt now r transaction)) pre"
    and r: "triggers_deny (evaluateRule rt now r transaction)"
  shows "\<exists>ev res. evaluate_loop rt cfg now transaction (pre @ r # later) acc = Inr ev
           \<and> \<not> allowed ev
           \<and> evaluateRule rt now r transaction = Inr res
           \<and> denyReason ev = Some (message res)
           \<and> map Inr (results ev)
               = map Inr (results acc) @ map (\<lambda>r. evaluateRule rt now r transaction) (pre @ [r])"
proof -
  from r obtain res where res: "evaluateRule rt now r transaction = Inr res"
    "\<not> passed res" "res_action res = DENY"
    by (auto simp: triggers_deny_def split: sum.splits)
  have m: "map Inr (map (\<lambda>r. projr (evaluateRule rt now r transaction)) pre)
             = map (\<lambda>r. evaluateRule rt now r transaction) pre"
    using pre by (induction pre) (auto simp: returns_result_def split: sum.splits)
  show ?thesis
    unfolding evaluate_loop_results_prefix[OF pre]
    using res stop m by (simp add: Let_def)
qed

lemma activeRules_order:
  "sorted (map rule_priority (activeRules rules))
   \<and> set (activeRules rules) = {r \<in> snd ` set rules. enabled r}
   \<and> (\<forall>p. filter (\<lambda>r. rule_priority r = p) (activeRules rules)
            = filter (\<lambda>r. rule_priority r = p) (filter enabled (map snd rules)))"
  unfolding activeRules_def
  by (auto simp: sort_key_stable)


subsection \<open>The default rules\<close>

text \<open>
  With distinct identifiers the store holds the four default rules in the order of
  \<open>DEFAULT_RULES\<close>, and the active rules are: Very High Amount Block and Minimum Amount
  (priority 0, in insertion order), High Amount Threshold (1), Supported Currencies (2).
\<close>

lemma default_store:
  assumes "distinct [i1, i2, i3, i4]"
  shows "map snd (initializeDefaultRules [i1, i2, i3, i4] now0 []) =
           [rule_of_template High_Amount_Threshold i1 now0,
            rule_of_template Very_High_Amount_Block i2 now0,
            rule_of_template Minimum_Amount i3 now0,
            rule_of_template Supported_Currencies i4 now0]"
  using assms by (auto simp: initializeDefaultRules_def DEFAULT_RULES_def)

lemma default_active:
  assumes "distinct [i1, i2, i3, i4]"
  shows "activeRules (initializeDefaultRules [i1, i2, i3, i4] now0 []) =
           [rule_of_template Very_High_Amount_Block i2 now0,
            rule_of_template Minimum_Amount i3 now0,
            rule_of_template High_Amount_Threshold i1 now0,
            rule_of_template Supported_Currencies i4 now0]"
  unfolding activeRules_def default_store[OF assms]
  by (simp add: rule_of_template_def High_Amount_Threshold_def Very_High_Amount_Block_def
        Minimum_Amount_def Supported_Currencies_def)

lemma evaluateRule_very_high_amount_block:
  "evaluateRule rt now (rule_of_template Very_High_Amount_Block i2 now0) transaction =
     Inr \<lparr> ruleId = i2, ruleName = ''Very High Amount Block'',
           passed = \<not> amount transaction > 100000,
           res_action = (if amount transaction > 100000 then DENY else ALLOW),
           res_severity = CRITICAL,
           message = (if amount transaction > 100000
              then ''Rule triggered: Very High Amount Block - Block transactions over $100,000''
              else ''Transaction passed rule check: Very High Amount Block''),
           evaluatedAt = now \<rparr>"
  by (simp add: evaluateRule_def rule_of_template_def evaluateLeaf_def num_compare_def
        to_num_def High_Amount_Threshold_def Very_High_Amount_Block_def Minimum_Amount_def)

lemma evaluateRule_minimum_amount:
  "evaluateRule rt now (rule_of_template Minimum_Amount i3 now0) transaction =
     Inr \<lparr> ruleId = i3, ruleName = ''Minimum Amount'',
           passed = \<not> amount transaction < 0.01,
           res_action = (if amount transaction < 0.01 then DENY else ALLOW),
           res_severity = ERROR,
           message = (if amount transaction < 0.01
              then ''Rule triggered: Minimum Amount - Reject transactions below $0.01''
              else ''Transaction passed rule check: Minimum Amount''),
           evaluatedAt = now \<rparr>"
  by (simp add: evaluateRule_def rule_of_template_def evaluateLeaf_def num_compare_def
        to_num_def High_Amount_Threshold_def Very_High_Amount_Block_def Minimum_Amount_def)

lemma evaluateRule_high_amount_threshold:
  "evaluateRule rt now (rule_of_template High_Amount_Threshold i1 now0) transaction =
     Inr \<lparr> ruleId = i1, ruleName = ''High Amount Threshold'',
           passed = \<not> amount transaction > 10000,
           res_action = (if amount transaction > 10000 then FLAG else ALLOW),
           res_severity = WARNING,
           message = (if amount transaction > 10000
              then ''Rule triggered: High Amount Threshold - Flag transactions over $10,000''
              else ''Transaction passed rule check: High Amount Threshold''),
           evaluatedAt = now \<rparr>"
  by (simp add: evaluateRule_def rule_of_template_def evaluateLeaf_def num_compare_def
        to_num_def High_Amount_Threshold_def Very_High_Amount_Block_def Minimum_Amount_def)

lemma evaluateRule_supported_currencies:
  "evaluateRule rt now (rule_of_template Supported_Currencies i4 now0) transaction =
     Inr \<lparr> ruleId = i4, ruleName = ''Supported Currencies'',
           passed = (currency transaction \<in> {''USD'', ''EUR'', ''GBP''}),
           res_action = ALLOW,
           res_severity = INFO,
           message = (if currency transaction \<in> {''USD'', ''EUR'', ''GBP''}
              then ''Transaction passed rule: Supported Currencies''
              else ''Transaction failed rule: Supported Currencies''),
           evaluatedAt = now \<rparr>"
  by (auto simp: evaluateRule_def rule_of_template_def evaluateLeaf_def array_includes_def
        Supported_Currencies_def)


lemma default_rules_evaluation:
  assumes "distinct [i1, i2, i3, i4]"
  shows "evaluateTransaction rt defaultConfig (initializeDefaultRules [i1, i2, i3, i4] now0 []) now
           transaction =
         evaluate_loop rt defaultConfig now transaction
           [rule_of_template Very_High_Amount_Block i2 now0,
            rule_of_template Minimum_Amount i3 now0,
            rule_of_template High_Amount_Threshold i1 now0,
            rule_of_template Supported_Currencies i4 now0]
           \<lparr> allowed = True, results = [], flagged = False, requiresApproval = False,
             denyReason = None \<rparr>"
  by (simp add: evaluateTransaction_def default_active[OF assms])

lemma default_rules_block_very_high_amount:
  assumes "distinct [i1, i2, i3, i4]" and "amount transaction = 150000"
  shows "evaluateTransaction rt defaultConfig (initializeDefaultRules [i1, i2, i3, i4] now0 []) now
           transaction =
         Inr \<lparr> allowed = False,
               results =
                 [\<lparr> ruleId = i2, ruleName = ''Very High Amount Block'', passed = False,
                    res_action = DENY, res_severity = CRITICAL,
                    message =
                      ''Rule triggered: Very High Amount Block - Block transactions over $100,000'',
                    evaluatedAt = now \<rparr>],
               flagged = False, requiresApproval = False,
               denyReason =
                 Some ''Rule triggered: Very High Amount Block - Block transactions over $100,000'' \<rparr>"
  unfolding default_rules_evaluation[OF assms(1)]
  by (simp add: evaluateRule_very_high_amount_block assms(2) defaultConfig_def)

lemma default_rules_within_amount_bounds:
  assumes "distinct [i1, i2, i3, i4]"
    and "0.01 \<le> amount transaction" and "amount transaction \<le> 100000"
  shows "evaluateTransaction rt defaultConfig (initializeDefaultRules [i1, i2, i3, i4] now0 []) now
           transaction =
         Inr \<lparr> allowed = True,
               results =
                 [projr (evaluateRule rt now (rule_of_template Very_High_Amount_Block i2 now0) transaction),
                  projr (evaluateRule rt now (rule_of_template Minimum_Amount i3 now0) transaction),
                  projr (evaluateRule rt now (rule_of_template High_Amount_Threshold i1 now0) transaction),
                  projr (evaluateRule rt now (rule_of_template Supported_Currencies i4 now0) transaction)],
               flagged = (amount transaction > 10000), requiresApproval = False,
               denyReason = None \<rparr>"
  unfolding default_rules_evaluation[OF assms(1)]
  using assms(2,3)
  by (simp add: evaluateRule_very_high_amount_block evaluateRule_minimum_amount
        evaluateRule_high_amount_threshold evaluateRule_supported_currencies Let_def)

text \<open>
  Claim C2. The rules that \<open>evaluateTransaction\<close> evaluates are the enabled rules of the
  store, sorted by ascending priority, rules of equal priority in insertion order. When
  \<open>stopOnFirstDeny\<close> is set and the active rules are \<open>pre @ r # later\<close>, where the
  rules of \<open>pre\<close> return without triggering a DENY and \<open>r\<close> triggers one, the call returns
  with \<open>allowed = false\<close>, \<open>denyReason\<close> the message of the result of \<open>r\<close>, and
  \<open>results\<close> the results of \<open>pre @ [r]\<close> and of no other rule. When every active rule
  returns and none is a triggered DENY under \<open>stopOnFirstDeny\<close>, \<open>results\<close> holds the
  results of all active rules, in their order. Under the default rules and configuration a
  transaction of amount 150000 in USD is denied by Very High Amount Block, whose result is
  the only one.
\<close>

theorem evaluateTransaction_order_and_short_circuit:
  "(sorted (map rule_priority (activeRules rules))
    \<and> set (activeRules rules) = {r \<in> snd ` set rules. enabled r}
    \<and> (\<forall>p. filter (\<lambda>r. rule_priority r = p) (activeRules rules)
             = filter (\<lambda>r. rule_priority r = p) (filter enabled (map snd rules))))
   \<and> (stopOnFirstDeny cfg \<and> activeRules rules = pre @ r # later
       \<and> list_all (\<lambda>r. returns_result (evaluateRule rt now r transaction)
                        \<and> \<not> triggers_deny (evaluateRule rt now r transaction)) pre
       \<and> triggers_deny (evaluateRule rt now r transaction)
       \<longrightarrow> (\<exists>ev res. evaluateTransaction rt cfg rules now transaction = Inr ev
              \<and> \<not> allowed ev
              \<and> evaluateRule rt now r transaction = Inr res
              \<and> denyReason ev = Some (message res)
              \<and> map Inr (results ev)
                  = map (\<lambda>r. evaluateRule rt now r transaction) (pre @ [r])))
   \<and> (list_all (\<lambda>r. returns_result (evaluateRule rt now r transaction)
                    \<and> (stopOnFirstDeny cfg \<longrightarrow>
                          \<not> triggers_deny (evaluateRule rt now r transaction)))
          (activeRules rules)
       \<longrightarrow> (\<exists>ev. evaluateTransaction rt cfg rules now transaction = Inr ev
              \<and> map Inr (results ev)
                  = map (\<lambda>r. evaluateRule rt now r transaction) (activeRules rules)
              \<and> (allowed ev \<longleftrightarrow>
                    \<not> list_ex (\<lambda>r. triggers_deny (evaluateRule rt now r transaction))
                         (activeRules rules))))
   \<and> (distinct [i1, i2, i3, i4] \<and> amount transaction = 150000 \<and> currency transaction = ''USD''
       \<longrightarrow> evaluateTransaction rt defaultConfig (initializeDefaultRules [i1, i2, i3, i4] now0 [])
              now transaction =
            Inr \<lparr> allowed = False,
                  results =
                    [\<lparr> ruleId = i2, ruleName = ''Very High Amount Block'', passed = False,
                       res_action = DENY, res_severity = CRITICAL,
                       message =
                         ''Rule triggered: Very High Amount Block - Block transactions over $100,000'',
                       evaluatedAt = now \<rparr>],
                  flagged = False, requiresApproval = False,
                  denyReason =
                    Some ''Rule triggered: Very High Amount Block - Block transactions over $100,000'' \<rparr>)"
proof -
  have short: "stopOnFirstDeny cfg \<and> activeRules rules = pre @ r # later
       \<and> list_all (\<lambda>r. returns_result (evaluateRule rt now r transaction)
                        \<and> \<not> triggers_deny (evaluateRule rt now r transaction)) pre
       \<and> triggers_deny (evaluateRule rt now r transaction)
       \<longrightarrow> (\<exists>ev res. evaluateTransaction rt cfg rules now transaction = Inr ev
              \<and> \<not> allowed ev
              \<and> evaluateRule rt now r transaction = Inr res
              \<and> denyReason ev = Some (message res)
              \<and> map Inr (results ev)
                  = map (\<lambda>r. evaluateRule rt now r transaction) (pre @ [r]))"
  proof
    assume h: "stopOnFirstDeny cfg \<and> activeRules rules = pre @ r # later
       \<and> list_all (\<lambda>r. returns_result (evaluateRule rt now r transaction)
                        \<and> \<not> triggers_deny (evaluateRule rt now r transaction)) pre
       \<and> triggers_deny (evaluateRule rt now r transaction)"
    from h have 1: "stopOnFirstDeny cfg" by simp
    from h have 2: "list_all (\<lambda>r. returns_result (evaluateRule rt now r transaction)
                        \<and> \<not> triggers_deny (evaluateRule rt now r transaction)) pre" by simp
    from h have 3: "triggers_deny (evaluateRule rt now r transaction)" by simp
    from h have 4: "activeRules rules = pre @ r # later" by simp
    from evaluate_loop_short_circuit[OF 1 2 3, of later
           "\<lparr> allowed = True, results = [], flagged = False, requiresApproval = False,
              denyReason = None \<rparr>"]
    show "\<exists>ev res. evaluateTransaction rt cfg rules now transaction = Inr ev
              \<and> \<not> allowed ev
              \<and> evaluateRule rt now r transaction = Inr res
              \<and> denyReason ev = Some (message res)
              \<and> map Inr (results ev)
                  = map (\<lambda>r. evaluateRule rt now r transaction) (pre @ [r])"
      by (simp add: evaluateTransaction_def 4)
  qed
  have full: "list_all (\<lambda>r. returns_result (evaluateRule rt now r transaction)
                    \<and> (stopOnFirstDeny cfg \<longrightarrow>
                          \<not> triggers_deny (evaluateRule rt now r transaction)))
          (activeRules rules)
       \<longrightarrow> (\<exists>ev. evaluateTransaction rt cfg rules now transaction = Inr ev
              \<and> map Inr (results ev)
                  = map (\<lambda>r. evaluateRule rt now r transaction) (activeRules rules)
              \<and> (allowed ev \<longleftrightarrow>
                    \<not> list_ex (\<lambda>r. triggers_deny (evaluateRule rt now r transaction))
                         (activeRules rules)))"
  proof
    assume h: "list_all (\<lambda>r. returns_result (evaluateRule rt now r transaction)
                    \<and> (stopOnFirstDeny cfg \<longrightarrow>
                          \<not> triggers_deny (evaluateRule rt now r transaction)))
          (activeRules rules)"
    from evaluate_loop_complete[OF h, of
           "\<lparr> allowed = True, results = [], flagged = False, requiresApproval = False,
              denyReason = None \<rparr>"]
    show "\<exists>ev. evaluateTransaction rt cfg rules now transaction = Inr ev
              \<and> map Inr (results ev)
                  = map (\<lambda>r. evaluateRule rt now r transaction) (activeRules rules)
              \<and> (allowed ev \<longleftrightarrow>
                    \<not> list_ex (\<lambda>r. triggers_deny (evaluateRule rt now r transaction))
                         (activeRules rules))"
      by (simp add: evaluateTransaction_def)
  qed
  have dflt: "distinct [i1, i2, i3, i4] \<and> amount transaction = 150000
       \<and> currency transaction = ''USD''
       \<longrightarrow> evaluateTransaction rt defaultConfig (initializeDefaultRules [i1, i2, i3, i4] now0 [])
              now transaction =
            Inr \<lparr> allowed = False,
                  results =
                    [\<lparr> ruleId = i2, ruleName = ''Very High Amount Block'', passed = False,
                       res_action = DENY, res_severity = CRITICAL,
                       message =
                         ''Rule triggered: Very High Amount Block - Block transactions over $100,000'',
                       evaluatedAt = now \<rparr>],
                  flagged = False, requiresApproval = False,
                  denyReason =
                    Some ''Rule triggered: Very High Amount Block - Block transactions over $100,000'' \<rparr>"
    using default_rules_block_very_high_amount[of i1 i2 i3 i4 transaction rt now0 now] by blast
  show ?thesis
    by (rule conjI[OF activeRules_order], rule conjI[OF short], rule conjI[OF full], rule dflt)
qed

text \<open>
  The default store with identifiers r1 to r4 and a transaction of amount 150000 in USD:
  the denial, and the same denial as an instance of the short circuit with an empty \<open>pre\<close>.
\<close>

theorem evaluateTransaction_order_and_short_circuit_witness:
  "distinct [''r1'', ''r2'', ''r3'', ''r4'']
   \<and> amount high_amount_transaction = 150000 \<and> currency high_amount_transaction = ''USD''
   \<and> evaluateTransaction example_runtime defaultConfig example_rules 7 high_amount_transaction =
       Inr \<lparr> allowed = False,
             results =
               [\<lparr> ruleId = ''r2'', ruleName = ''Very High Amount Block'', passed = False,
                  res_action = DENY, res_severity = CRITICAL,
                  message =
                    ''Rule triggered: Very High Amount Block - Block transactions over $100,000'',
                  evaluatedAt = 7 \<rparr>],
             flagged = False, requiresApproval = False,
             denyReason =
               Some ''Rule triggered: Very High Amount Block - Block transactions over $100,000'' \<rparr>"
proof -
  have h: "distinct [''r1'', ''r2'', ''r3'', ''r4'']
           \<and> amount high_amount_transaction = 150000
           \<and> currency high_amount_transaction = ''USD''"
    by (simp add: high_amount_transaction_def example_transaction_def)
  from evaluateTransaction_order_and_short_circuit
         [where ?i1.0 = "''r1''" and ?i2.0 = "''r2''" and ?i3.0 = "''r3''" and ?i4.0 = "''r4''"
            and transaction = high_amount_transaction and rt = example_runtime
            and ?now0.0 = 0 and now = 7,
          THEN conjunct2, THEN conjunct2, THEN conjunct2, THEN mp, OF h]
  show ?thesis using h unfolding example_rules_def by simp
qed

text \<open>
  Claim C3, as the code has it. Under the default rules every transaction whose amount
  lies between 0.01 and 100000 is allowed, whatever its currency: a failed ALLOW rule has
  the result action ALLOW, for which the loop of \<open>evaluateTransaction\<close> has no case. The
  result of Supported Currencies records \<open>passed = false\<close> for a currency outside USD,
  EUR, GBP, and \<open>allowed\<close> stays true.
\<close>

theorem default_rules_allow_every_currency:
  "distinct [i1, i2, i3, i4] \<and> 0.01 \<le> amount transaction \<and> amount transaction \<le> 100000
   \<longrightarrow> (\<exists>ev. evaluateTransaction rt defaultConfig
                  (initializeDefaultRules [i1, i2, i3, i4] now0 []) now transaction = Inr ev
          \<and> allowed ev \<and> denyReason ev = None
          \<and> length (results ev) = 4
          \<and> passed (results ev ! 3) = (currency transaction \<in> {''USD'', ''EUR'', ''GBP''}))"
proof
  assume h: "distinct [i1, i2, i3, i4] \<and> 0.01 \<le> amount transaction
             \<and> amount transaction \<le> 100000"
  from h have d: "distinct [i1, i2, i3, i4]" by blast
  from h have lo: "0.01 \<le> amount transaction" by blast
  from h have hi: "amount transaction \<le> 100000" by blast
  show "\<exists>ev. evaluateTransaction rt defaultConfig
                  (initializeDefaultRules [i1, i2, i3, i4] now0 []) now transaction = Inr ev
          \<and> allowed ev \<and> denyReason ev = None
          \<and> length (results ev) = 4
          \<and> passed (results ev ! 3) = (currency transaction \<in> {''USD'', ''EUR'', ''GBP''})"
    unfolding default_rules_within_amount_bounds[OF d lo hi]
    by (simp add: evaluateRule_supported_currencies)
qed

text \<open>A transaction of amount 100 in JPY is allowed.\<close>

theorem default_rules_allow_every_currency_witness:
  "distinct [''r1'', ''r2'', ''r3'', ''r4''] \<and> 0.01 \<le> amount yen_transaction
   \<and> amount yen_transaction \<le> 100000 \<and> currency yen_transaction = ''JPY''
   \<and> (\<exists>ev. evaluateTransaction example_runtime defaultConfig example_rules 7 yen_transaction
              = Inr ev
          \<and> allowed ev \<and> denyReason ev = None \<and> \<not> passed (results ev ! 3))"
proof -
  have h: "distinct [''r1'', ''r2'', ''r3'', ''r4''] \<and> 0.01 \<le> amount yen_transaction
           \<and> amount yen_transaction \<le> 100000"
    by (simp add: yen_transaction_def example_transaction_def)
  have c: "currency yen_transaction = ''JPY''"
    by (simp add: yen_transaction_def)
  from default_rules_allow_every_currency
         [where ?i1.0 = "''r1''" and ?i2.0 = "''r2''" and ?i3.0 = "''r3''" and ?i4.0 = "''r4''"
            and transaction = yen_transaction and rt = example_runtime
            and ?now0.0 = 0 and now = 7,
          THEN mp, OF h]
  show ?thesis using h c unfolding example_rules_def by auto
qed
section \<open>The webhook dispatcher: retries, logs, signature\<close>

lemma update_fresh_key: "k \<notin> fst ` set al \<Longrightarrow> AList.update k v al = al @ [(k, v)]"
  by (induction al) auto

lemma saveLog_fresh:
  "log_id entry \<notin> fst ` set logs \<Longrightarrow> saveLog entry logs = logs @ [(log_id entry, entry)]"
  by (simp add: saveLog_def update_fresh_key)

lemma fresh_log_ids_step:
  assumes "fresh_log_ids env attempt logs" and "log_id entry = uuid env attempt"
  shows "fresh_log_ids env (attempt + 1) (logs @ [(log_id entry, entry)])"
proof -
  from assms(1) have inj: "inj_on (uuid env) {attempt..}"
    and out: "\<forall>k\<ge>attempt. uuid env k \<notin> fst ` set logs"
    by (simp_all add: fresh_log_ids_def)
  have "inj_on (uuid env) {attempt + 1..}"
    by (rule inj_on_subset[OF inj]) auto
  moreover have "uuid env k \<notin> fst ` set (logs @ [(log_id entry, entry)])" if "k \<ge> attempt + 1" for k
  proof -
    from that out have "uuid env k \<notin> fst ` set logs" by simp
    moreover from that inj have "uuid env k \<noteq> uuid env attempt"
      by (auto dest: inj_onD)
    ultimately show ?thesis using assms(2) by simp
  qed
  ultimately show ?thesis by (simp add: fresh_log_ids_def)
qed

lemma attempt_log_fields:
  "attempts (attempt_log lib env webhook event payload k) = k
   \<and> log_id (attempt_log lib env webhook event payload k) = uuid env k
   \<and> webhookId (attempt_log lib env webhook event payload k) = wh_id webhook
   \<and> log_event (attempt_log lib env webhook event payload k) = event
   \<and> (success (attempt_log lib env webhook event payload k) \<longleftrightarrow>
        (\<exists>st data. attempt_outcome lib env webhook event payload k = Resolved st data))"
  by (cases "attempt_outcome lib env webhook event payload k")
     (simp_all add: attempt_log_def success_log_def failure_log_def)

lemma sendWebhook_run:
  assumes "fresh_log_ids env attempt logs"
  shows "\<exists>n\<ge>1.
           fst (sendWebhook lib env webhook event payload attempt logs)
             = logs @ map (\<lambda>k. (uuid env k, attempt_log lib env webhook event payload k))
                        [attempt..<attempt + n]
         \<and> snd (sendWebhook lib env webhook event payload attempt logs)
             = map (\<lambda>k. (2 ^ k * 1000, k + 1)) [attempt..<attempt + n - 1]
         \<and> (\<forall>k. attempt \<le> k \<and> k < attempt + n - 1 \<longrightarrow>
                real k < wh_maxRetries webhook
                \<and> \<not> success (attempt_log lib env webhook event payload k))
         \<and> (\<not> success (attempt_log lib env webhook event payload (attempt + n - 1)) \<longrightarrow>
                \<not> real (attempt + n - 1) < wh_maxRetries webhook)"
  using assms
proof (induction lib env webhook event payload attempt logs rule: sendWebhook.induct)
  case (1 lib env webhook event payload attempt logs)
  let ?L = "attempt_log lib env webhook event payload"
  have id: "log_id (?L attempt) = uuid env attempt" by (simp add: attempt_log_fields)
  from "1.prems" have "uuid env attempt \<notin> fst ` set logs"
    by (simp add: fresh_log_ids_def)
  with id have save: "saveLog (?L attempt) logs = logs @ [(uuid env attempt, ?L attempt)]"
    by (simp add: saveLog_fresh)
  show ?case
  proof (cases "attempt_outcome lib env webhook event payload attempt")
    case (Resolved st data)
    then have L: "?L attempt = success_log lib env webhook event payload attempt st data"
      by (simp add: attempt_log_def)
    have r: "sendWebhook lib env webhook event payload attempt logs
               = (logs @ [(uuid env attempt, ?L attempt)], [])"
      using Resolved save L by (simp add: sendWebhook.simps)
    have s: "success (?L attempt)" by (simp add: L success_log_def)
    show ?thesis
      by (rule exI[of _ 1]) (auto simp: r s)
  next
    case (Rejected msg resp)
    then have L: "?L attempt = failure_log env webhook event payload attempt msg resp"
      by (simp add: attempt_log_def)
    have ns: "\<not> success (?L attempt)" by (simp add: L failure_log_def)
    show ?thesis
    proof (cases "real attempt < wh_maxRetries webhook")
      case False
      have r: "sendWebhook lib env webhook event payload attempt logs
                 = (logs @ [(uuid env attempt, ?L attempt)], [])"
        using Rejected False save L by (simp add: sendWebhook.simps)
      show ?thesis
        by (rule exI[of _ 1]) (auto simp: r False)
    next
      case True
      let ?logs1 = "logs @ [(uuid env attempt, ?L attempt)]"
      let ?rest = "sendWebhook lib env webhook event payload (attempt + 1) ?logs1"
      have fresh1: "fresh_log_ids env (attempt + 1) (saveLog (?L attempt) logs)"
        unfolding save using fresh_log_ids_step[OF "1.prems" id] id by simp
      have ih: "\<exists>n\<ge>1.
           fst ?rest = ?logs1 @ map (\<lambda>k. (uuid env k, ?L k)) [attempt + 1..<attempt + 1 + n]
         \<and> snd ?rest = map (\<lambda>k. (2 ^ k * 1000, k + 1)) [attempt + 1..<attempt + 1 + n - 1]
         \<and> (\<forall>k. attempt + 1 \<le> k \<and> k < attempt + 1 + n - 1 \<longrightarrow>
                real k < wh_maxRetries webhook \<and> \<not> success (?L k))
         \<and> (\<not> success (?L (attempt + 1 + n - 1)) \<longrightarrow>
                \<not> real (attempt + 1 + n - 1) < wh_maxRetries webhook)"
        using "1.IH"[OF Rejected refl True refl fresh1[unfolded L]]
        unfolding L[symmetric] save .
      then obtain n where n: "n \<ge> 1"
        and f: "fst ?rest = ?logs1 @ map (\<lambda>k. (uuid env k, ?L k)) [attempt + 1..<attempt + 1 + n]"
        and t: "snd ?rest = map (\<lambda>k. (2 ^ k * 1000, k + 1)) [attempt + 1..<attempt + 1 + n - 1]"
        and b: "\<forall>k. attempt + 1 \<le> k \<and> k < attempt + 1 + n - 1 \<longrightarrow>
                  real k < wh_maxRetries webhook \<and> \<not> success (?L k)"
        and e: "\<not> success (?L (attempt + 1 + n - 1)) \<longrightarrow>
                  \<not> real (attempt + 1 + n - 1) < wh_maxRetries webhook"
        by blast
      have r: "sendWebhook lib env webhook event payload attempt logs
                 = (fst ?rest, (2 ^ attempt * 1000, attempt + 1) # snd ?rest)"
        using Rejected True save L
        by (simp add: sendWebhook.simps[of lib env webhook event payload attempt logs]
              Let_def split: prod.splits)
      have u1: "[attempt..<attempt + (n + 1)] = attempt # [attempt + 1..<attempt + 1 + n]"
        by (simp add: upt_rec)
      have u2: "[attempt..<attempt + (n + 1) - 1] = attempt # [attempt + 1..<attempt + 1 + n - 1]"
        using n by (simp add: upt_rec)
      have b': "\<forall>k. attempt \<le> k \<and> k < attempt + (n + 1) - 1 \<longrightarrow>
                  real k < wh_maxRetries webhook \<and> \<not> success (?L k)"
      proof (intro allI impI)
        fix k assume k: "attempt \<le> k \<and> k < attempt + (n + 1) - 1"
        show "real k < wh_maxRetries webhook \<and> \<not> success (?L k)"
        proof (cases "k = attempt")
          case True
          with \<open>real attempt < wh_maxRetries webhook\<close> ns show ?thesis by simp
        next
          case False
          with k b show ?thesis by simp
        qed
      qed
      show ?thesis
      proof (rule exI[of _ "n + 1"], intro conjI)
        show "1 \<le> n + 1" by simp
        show "fst (sendWebhook lib env webhook event payload attempt logs)
                = logs @ map (\<lambda>k. (uuid env k, ?L k)) [attempt..<attempt + (n + 1)]"
          unfolding u1
          by (simp only: r fst_conv f list.map append_assoc append_Cons append_Nil)
        show "snd (sendWebhook lib env webhook event payload attempt logs)
                = map (\<lambda>k. (2 ^ k * 1000, k + 1)) [attempt..<attempt + (n + 1) - 1]"
          unfolding u2 by (simp only: r snd_conv t list.map)
        show "\<forall>k. attempt \<le> k \<and> k < attempt + (n + 1) - 1 \<longrightarrow>
                  real k < wh_maxRetries webhook \<and> \<not> success (?L k)"
          by (rule b')
        show "\<not> success (?L (attempt + (n + 1) - 1)) \<longrightarrow>
                \<not> real (attempt + (n + 1) - 1) < wh_maxRetries webhook"
          using e by simp
      qed
    qed
  qed
qed

text \<open>
  Claim C5. Let the identifiers of the logs be fresh. A call of \<open>sendWebhook\<close> with attempt
  number \<open>attempt\<close> makes \<open>n \<ge> 1\<close> attempts, numbered \<open>attempt, ..., attempt + n - 1\<close>, and
  adds to the store exactly one log for each of them, in this order; every attempt but the
  last one failed while its number was strictly below \<open>maxRetries\<close>, and for each of these
  attempts \<open>k\<close>, and for no other, a retry with number \<open>k + 1\<close> was scheduled after
  \<open>2 ^ k * 1000\<close> milliseconds; if the last attempt failed too, its number is not below
  \<open>maxRetries\<close> and nothing more is scheduled. The log of attempt \<open>k\<close> has
  \<open>attempts = k\<close>, and \<open>success = false\<close> exactly when the request was rejected.
\<close>

theorem sendWebhook_retries_and_logs:
  "(fresh_log_ids env attempt logs \<longrightarrow>
      (\<exists>n\<ge>1.
           fst (sendWebhook lib env webhook event payload attempt logs)
             = logs @ map (\<lambda>k. (uuid env k, attempt_log lib env webhook event payload k))
                        [attempt..<attempt + n]
         \<and> snd (sendWebhook lib env webhook event payload attempt logs)
             = map (\<lambda>k. (2 ^ k * 1000, k + 1)) [attempt..<attempt + n - 1]
         \<and> (\<forall>k. attempt \<le> k \<and> k < attempt + n - 1 \<longrightarrow>
                real k < wh_maxRetries webhook
                \<and> \<not> success (attempt_log lib env webhook event payload k))
         \<and> (\<not> success (attempt_log lib env webhook event payload (attempt + n - 1)) \<longrightarrow>
                \<not> real (attempt + n - 1) < wh_maxRetries webhook)))
   \<and> attempts (attempt_log lib env webhook event payload k) = k
   \<and> (\<not> success (attempt_log lib env webhook event payload k) \<longleftrightarrow>
        (\<exists>msg resp. attempt_outcome lib env webhook event payload k = Rejected msg resp))"
proof -
  have run: "fresh_log_ids env attempt logs \<longrightarrow>
      (\<exists>n\<ge>1.
           fst (sendWebhook lib env webhook event payload attempt logs)
             = logs @ map (\<lambda>k. (uuid env k, attempt_log lib env webhook event payload k))
                        [attempt..<attempt + n]
         \<and> snd (sendWebhook lib env webhook event payload attempt logs)
             = map (\<lambda>k. (2 ^ k * 1000, k + 1)) [attempt..<attempt + n - 1]
         \<and> (\<forall>k. attempt \<le> k \<and> k < attempt + n - 1 \<longrightarrow>
                real k < wh_maxRetries webhook
                \<and> \<not> success (attempt_log lib env webhook event payload k))
         \<and> (\<not> success (attempt_log lib env webhook event payload (attempt + n - 1)) \<longrightarrow>
                \<not> real (attempt + n - 1) < wh_maxRetries webhook))"
    by (rule impI) (rule sendWebhook_run)
  have num: "attempts (attempt_log lib env webhook event payload k) = k"
    by (simp add: attempt_log_fields)
  have rej: "\<not> success (attempt_log lib env webhook event payload k) \<longleftrightarrow>
        (\<exists>msg resp. attempt_outcome lib env webhook event payload k = Rejected msg resp)"
    by (cases "attempt_outcome lib env webhook event payload k")
       (simp_all add: attempt_log_def success_log_def failure_log_def)
  show ?thesis
    by (rule conjI[OF run], rule conjI[OF num], rule rej)
qed

lemma unreachable_fresh: "fresh_log_ids unreachable 1 []"
proof -
  have "inj_on (\<lambda>k. replicate k (CHR ''x'')) {1..}"
  proof (rule inj_onI)
    fix a b :: nat
    assume "replicate a (CHR ''x'') = replicate b (CHR ''x'')"
    then have "length (replicate a (CHR ''x'')) = length (replicate b (CHR ''x''))" by simp
    then show "a = b" by simp
  qed
  then show ?thesis by (simp add: fresh_log_ids_def unreachable_def)
qed

text \<open>
  An endpoint that refuses every connection and a webhook with \<open>maxRetries = 3\<close>: three
  attempts, three logs, retries after 2 and after 4 seconds.
\<close>

theorem sendWebhook_retries_and_logs_witness:
  "fresh_log_ids unreachable 1 []
   \<and> (\<exists>n\<ge>1.
         fst (sendWebhook example_library unreachable example_webhook ''transaction.created''
                (JObj []) 1 [])
           = [] @ map (\<lambda>k. (uuid unreachable k,
                            attempt_log example_library unreachable example_webhook
                              ''transaction.created'' (JObj []) k))
                    [1..<1 + n]
       \<and> snd (sendWebhook example_library unreachable example_webhook ''transaction.created''
                (JObj []) 1 [])
           = map (\<lambda>k. (2 ^ k * 1000, k + 1)) [1..<1 + n - 1])
   \<and> map (attempts \<circ> snd)
        (fst (sendWebhook example_library unreachable example_webhook ''transaction.created''
                (JObj []) 1 [])) = [1, 2, 3]
   \<and> map (success \<circ> snd)
        (fst (sendWebhook example_library unreachable example_webhook ''transaction.created''
                (JObj []) 1 [])) = [False, False, False]
   \<and> snd (sendWebhook example_library unreachable example_webhook ''transaction.created''
             (JObj []) 1 []) = [(2000, 2), (4000, 3)]"
proof -
  from sendWebhook_retries_and_logs
         [where env = unreachable and attempt = 1 and logs = "[]" and lib = example_library
            and webhook = example_webhook and event = "''transaction.created''"
            and payload = "JObj []",
          THEN conjunct1, THEN mp, OF unreachable_fresh]
  have 1: "\<exists>n\<ge>1.
         fst (sendWebhook example_library unreachable example_webhook ''transaction.created''
                (JObj []) 1 [])
           = [] @ map (\<lambda>k. (uuid unreachable k,
                            attempt_log example_library unreachable example_webhook
                              ''transaction.created'' (JObj []) k))
                    [1..<1 + n]
       \<and> snd (sendWebhook example_library unreachable example_webhook ''transaction.created''
                (JObj []) 1 [])
           = map (\<lambda>k. (2 ^ k * 1000, k + 1)) [1..<1 + n - 1]"
    by blast
  have o: "attempt_outcome example_library unreachable example_webhook ''transaction.created''
             (JObj []) k = Rejected ''connect ECONNREFUSED'' None" for k
    by (simp add: attempt_outcome_def unreachable_def Let_def)
  have m: "wh_maxRetries example_webhook = 3" by (simp add: example_webhook_def)
  have last: "sendWebhook example_library unreachable example_webhook ''transaction.created''
             (JObj []) a logs
           = (saveLog (failure_log unreachable example_webhook ''transaction.created'' (JObj []) a
                         ''connect ECONNREFUSED'' None) logs, [])"
    if "\<not> real a < 3" for a logs
    using that by (subst sendWebhook.simps) (simp add: o m)
  have step: "sendWebhook example_library unreachable example_webhook ''transaction.created''
             (JObj []) a logs
           = (case sendWebhook example_library unreachable example_webhook
                     ''transaction.created'' (JObj []) (a + 1)
                     (saveLog (failure_log unreachable example_webhook ''transaction.created''
                                 (JObj []) a ''connect ECONNREFUSED'' None) logs) of
                (logs', timers) \<Rightarrow> (logs', (2 ^ a * 1000, a + 1) # timers))"
    if "real a < 3" for a logs
    using that by (subst sendWebhook.simps) (simp add: o m)
  have logs: "map (attempts \<circ> snd)
        (fst (sendWebhook example_library unreachable example_webhook ''transaction.created''
                (JObj []) 1 [])) = [1, 2, 3]
   \<and> map (success \<circ> snd)
        (fst (sendWebhook example_library unreachable example_webhook ''transaction.created''
                (JObj []) 1 [])) = [False, False, False]
   \<and> snd (sendWebhook example_library unreachable example_webhook ''transaction.created''
             (JObj []) 1 []) = [(2000, 2), (4000, 3)]"
    by (simp add: step last) (simp add: saveLog_def failure_log_def unreachable_def)
  show ?thesis
    by (rule conjI[OF unreachable_fresh], rule conjI[OF 1], rule logs)
qed

text \<open>
  Claim C8. For a webhook whose secret is present and not empty, the header
  \<open>X-Webhook-Signature\<close> of a delivery is \<open>generateSignature\<close> of the serialised envelope
  \<open>{event, timestamp, payload}\<close> and the secret, that is the hex HMAC-SHA256 of that string
  under the secret; the request of an attempt carries as its body the serialisation of the
  same envelope, with the timestamp of the header \<open>X-Webhook-Timestamp\<close>; and
  \<open>generateSignature\<close> of any string equal to that body, with the same secret, is the
  signature of the header.
\<close>

theorem webhook_signature_round_trip:
  "(wh_secret webhook = Some s \<and> s \<noteq> [] \<longrightarrow>
      map_of (request_headers lib webhook event stamp payload) ''X-Webhook-Signature''
        = Some (hmac_sha256_hex lib s (json_stringify lib (envelope event stamp payload)))
      \<and> map_of (request_headers lib webhook event stamp payload) ''X-Webhook-Timestamp''
        = Some stamp
      \<and> (\<forall>received. received = json_stringify lib (envelope event stamp payload) \<longrightarrow>
            Some (generateSignature lib received s)
              = map_of (request_headers lib webhook event stamp payload) ''X-Webhook-Signature''))
   \<and> envelope event stamp payload
       = JObj [(''event'', JStr event), (''timestamp'', JStr stamp), (''payload'', payload)]
   \<and> attempt_outcome lib env webhook event payload attempt
       = post env attempt (wh_url webhook)
           (json_stringify lib (envelope event (toISOString lib (clock env attempt)) payload))
           (request_headers lib webhook event (toISOString lib (clock env attempt)) payload)"
  by (simp add: request_headers_def generateSignature_def envelope_def attempt_outcome_def
        Let_def)

text \<open>The example webhook, whose secret is \<open>s3cret\<close>.\<close>

theorem webhook_signature_round_trip_witness:
  "wh_secret example_webhook = Some ''s3cret'' \<and> ''s3cret'' \<noteq> []
   \<and> map_of (request_headers example_library example_webhook ''transaction.created'' ''t0''
               (JObj [])) ''X-Webhook-Signature''
       = Some (hmac_sha256_hex example_library ''s3cret''
                 (json_stringify example_library
                    (envelope ''transaction.created'' ''t0'' (JObj []))))"
proof -
  have h: "wh_secret example_webhook = Some ''s3cret'' \<and> ''s3cret'' \<noteq> []"
    by (simp add: example_webhook_def)
  from webhook_signature_round_trip
         [where webhook = example_webhook and s = "''s3cret''" and lib = example_library
            and event = "''transaction.created''" and stamp = "''t0''" and payload = "JObj []",
          THEN conjunct1, THEN mp, OF h, THEN conjunct1]
  show ?thesis using h by simp
qed

end
